theory Spec2Isabelle
  imports Main "HOL-Library.AList"
begin

section \<open>Values, time and exceptions\<close>

text \<open>
  The caches store values of TypeScript type \<^verbatim>\<open>any\<close>. The code distinguishes
  \<^verbatim>\<open>null\<close> from every other value (\<^verbatim>\<open>memoryResult !== null\<close>) and tests
  truthiness (\<^verbatim>\<open>!result\<close>), so values are a datatype with both.
  Numbers are integers here; \<^verbatim>\<open>Date.now()\<close> and \<^verbatim>\<open>Date\<close> objects are
  milliseconds since the epoch, as \<^typ>\<open>int\<close>. Every call of \<^verbatim>\<open>Date.now()\<close>
  in the source is an explicit argument \<open>now\<close> of the model.
\<close>

datatype jsval =
    JUndefined
  | JNull
  | JBool bool
  | JNum int
  | JStr string
  | JArr "jsval list"
  | JObj "(string \<times> jsval) list"

text \<open>JavaScript truthiness of a value (\<^verbatim>\<open>if (x)\<close>, \<^verbatim>\<open>!x\<close>).\<close>

fun truthy :: "jsval \<Rightarrow> bool" where
  "truthy JUndefined = False"
| "truthy JNull = False"
| "truthy (JBool b) = b"
| "truthy (JNum n) = (n \<noteq> 0)"
| "truthy (JStr s) = (s \<noteq> [])"
| "truthy (JArr xs) = True"
| "truthy (JObj kvs) = True"

section \<open>MemoryCache (BaseCache.ts, lines 15-68)\<close>

text \<open>
  \<^verbatim>\<open>private cache = new Map<string, { data: any; expires: number; lastModified?: Date }>()\<close>.
  A JavaScript \<^verbatim>\<open>Map\<close> iterates in insertion order, \<^verbatim>\<open>Map.set\<close> of a present
  key keeps its position and of a new key appends, so the map is an association list in
  insertion order: \<^const>\<open>AList.update\<close> is \<^verbatim>\<open>Map.set\<close>, \<^const>\<open>AList.delete\<close> is
  \<^verbatim>\<open>Map.delete\<close>, \<^const>\<open>map_of\<close> is \<^verbatim>\<open>Map.get\<close> and the length is
  \<^verbatim>\<open>Map.size\<close>.
\<close>

record entry =
  data :: jsval
  expires :: int
  lastModified :: "int option"

record MemoryCache =
  cache :: "(string \<times> entry) list"
  maxSize :: int

text \<open>\<^verbatim>\<open>constructor(maxSize: number = 1000)\<close>\<close>

definition MemoryCache_new :: "int option \<Rightarrow> MemoryCache" where
  "MemoryCache_new m =
     \<lparr> cache = [], maxSize = (case m of None \<Rightarrow> 1000 | Some n \<Rightarrow> n) \<rparr>"

text \<open>
  The eviction step of \<^verbatim>\<open>set\<close>:
  \<^verbatim>\<open>const firstKey = this.cache.keys().next().value; if (firstKey) this.cache.delete(firstKey);\<close>
  The first key is \<^verbatim>\<open>undefined\<close> on an empty map, and the guard is a truthiness
  test, so the empty string is not deleted either.
\<close>

fun evict_first :: "(string \<times> entry) list \<Rightarrow> (string \<times> entry) list" where
  "evict_first [] = []"
| "evict_first ((firstKey, e) # rest) =
     (if firstKey \<noteq> [] then AList.delete firstKey ((firstKey, e) # rest)
      else (firstKey, e) # rest)"

text \<open>
  \<^verbatim>\<open>set(key, data, ttl = 3600, lastModified?)\<close>: evict when
  \<^verbatim>\<open>this.cache.size >= this.maxSize\<close>, then store
  \<^verbatim>\<open>{ data, expires: Date.now() + ttl * 1000, lastModified }\<close>.
\<close>

definition MemoryCache_set ::
  "MemoryCache \<Rightarrow> string \<Rightarrow> jsval \<Rightarrow> int option \<Rightarrow> int option \<Rightarrow> int \<Rightarrow> MemoryCache" where
  "MemoryCache_set c key d ttl lm now =
     (let ttl' = (case ttl of None \<Rightarrow> 3600 | Some t \<Rightarrow> t);
          kept = (if int (length (cache c)) \<ge> maxSize c then evict_first (cache c)
                  else cache c);
          expires' = now + ttl' * 1000
      in c \<lparr> cache := AList.update key
                 \<lparr> data = d, expires = expires', lastModified = lm \<rparr> kept \<rparr>)"

text \<open>
  \<^verbatim>\<open>get(key)\<close>: \<^verbatim>\<open>null\<close> when there is no entry; when
  \<^verbatim>\<open>Date.now() > entry.expires\<close> the entry is deleted and the result is
  \<^verbatim>\<open>null\<close>; otherwise \<^verbatim>\<open>entry.data\<close>.
\<close>

definition MemoryCache_get :: "MemoryCache \<Rightarrow> string \<Rightarrow> int \<Rightarrow> jsval \<times> MemoryCache" where
  "MemoryCache_get c key now =
     (case map_of (cache c) key of
        None \<Rightarrow> (JNull, c)
      | Some e \<Rightarrow>
          if now > expires e then (JNull, c \<lparr> cache := AList.delete key (cache c) \<rparr>)
          else (data e, c))"

text \<open>
  \<^verbatim>\<open>isStale(key, lastModified)\<close>:
  \<^verbatim>\<open>if (!entry || !entry.lastModified) return true; return lastModified > entry.lastModified;\<close>
  The method returns the cache it was given: it performs no write.
\<close>

definition MemoryCache_isStale :: "MemoryCache \<Rightarrow> string \<Rightarrow> int \<Rightarrow> bool \<times> MemoryCache" where
  "MemoryCache_isStale c key t =
     (case map_of (cache c) key of
        None \<Rightarrow> (True, c)
      | Some e \<Rightarrow>
          (case lastModified e of
             None \<Rightarrow> (True, c)
           | Some lm \<Rightarrow> (t > lm, c)))"

definition MemoryCache_delete :: "MemoryCache \<Rightarrow> string \<Rightarrow> MemoryCache" where
  "MemoryCache_delete c key = c \<lparr> cache := AList.delete key (cache c) \<rparr>"

definition MemoryCache_clear :: "MemoryCache \<Rightarrow> MemoryCache" where
  "MemoryCache_clear c = c \<lparr> cache := [] \<rparr>"

text \<open>\<^verbatim>\<open>getStats()\<close> returns \<^verbatim>\<open>{ size, maxSize }\<close>.\<close>

definition MemoryCache_getStats :: "MemoryCache \<Rightarrow> nat \<times> int" where
  "MemoryCache_getStats c = (length (cache c), maxSize c)"

text \<open>A call of one of the methods, with the clock reading it sees, and a run of calls.\<close>

datatype cache_op =
    OpSet string jsval "int option" "int option" int
  | OpGet string int
  | OpDelete string
  | OpClear

fun apply_op :: "MemoryCache \<Rightarrow> cache_op \<Rightarrow> MemoryCache" where
  "apply_op c (OpSet key d ttl lm now) = MemoryCache_set c key d ttl lm now"
| "apply_op c (OpGet key now) = snd (MemoryCache_get c key now)"
| "apply_op c (OpDelete key) = MemoryCache_delete c key"
| "apply_op c OpClear = MemoryCache_clear c"

definition run_ops :: "MemoryCache \<Rightarrow> cache_op list \<Rightarrow> MemoryCache" where
  "run_ops c ops = foldl apply_op c ops"

fun set_key_nonempty :: "cache_op \<Rightarrow> bool" where
  "set_key_nonempty (OpSet key d ttl lm now) = (key \<noteq> [])"
| "set_key_nonempty _ = True"

text \<open>
  The invariant of a cache that was built by the constructor with bound \<open>m\<close> and then
  only used through its methods with non-empty keys: keys are unique (it is a
  \<^verbatim>\<open>Map\<close>), none is the empty string, and the size is within the bound.
\<close>

definition cache_inv :: "int \<Rightarrow> MemoryCache \<Rightarrow> bool" where
  "cache_inv m c \<longleftrightarrow>
     maxSize c = m \<and> distinct (map fst (cache c)) \<and> [] \<notin> fst ` set (cache c)
     \<and> int (length (cache c)) \<le> m"

section \<open>RedisCache (BaseCache.ts, lines 71-141)\<close>

text \<open>
  An exception that a call may throw, or a rejected promise that \<^verbatim>\<open>await\<close>
  rethrows. A fallible computation returns \<open>exn + 'a\<close>, with \<open>Inl\<close> the exception.
\<close>

datatype exn = TransportError | SyntaxError | TypeError

text \<open>
  The \<^verbatim>\<open>@upstash/redis\<close> client is not part of the repository: it is a parameter.
  Each method takes the state \<open>'r\<close> of the remote side (the store, the network, a
  schedule of failures) and returns the awaited outcome with the next state, so any
  deterministic client, failing or not, is an instance.
\<close>

record 'r driver =
  redis_setex :: "string \<Rightarrow> int \<Rightarrow> string \<Rightarrow> 'r \<Rightarrow> (exn + unit) \<times> 'r"
  redis_get :: "string \<Rightarrow> 'r \<Rightarrow> (exn + jsval) \<times> 'r"
  redis_del :: "string list \<Rightarrow> 'r \<Rightarrow> (exn + unit) \<times> 'r"
  redis_keys :: "string \<Rightarrow> 'r \<Rightarrow> (exn + string list) \<times> 'r"
  redis_flushall :: "'r \<Rightarrow> (exn + unit) \<times> 'r"

text \<open>
  \<^verbatim>\<open>JSON.stringify\<close> and \<^verbatim>\<open>JSON.parse\<close> are built-ins of the platform, also
  taken as parameters; both may throw.
\<close>

record JSON =
  JSON_stringify :: "jsval \<Rightarrow> exn + string"
  JSON_parse :: "jsval \<Rightarrow> exn + jsval"

record RedisConfig =
  url :: string
  token :: string

text \<open>\<^verbatim>\<open>private redis: any = null\<close>: the client, or \<^verbatim>\<open>null\<close>.\<close>

record 'r RedisCache =
  redis :: "'r driver option"

text \<open>
  The constructor: \<^verbatim>\<open>require('@upstash/redis')\<close> and \<^verbatim>\<open>new Redis(config)\<close> in a
  \<^verbatim>\<open>try\<close>; when either throws, a warning is printed and \<^verbatim>\<open>redis\<close> stays
  \<^verbatim>\<open>null\<close>.
\<close>

definition RedisCache_new :: "(RedisConfig \<Rightarrow> exn + 'r driver) \<Rightarrow> RedisConfig \<Rightarrow> 'r RedisCache" where
  "RedisCache_new connect cfg =
     \<lparr> redis = (case connect cfg of Inl e \<Rightarrow> None | Inr cl \<Rightarrow> Some cl) \<rparr>"

text \<open>
  \<^verbatim>\<open>try { body } catch (error) { console.error(...); [return dflt] }\<close>: an exception
  of the body is logged and replaced by the handler's result; the remote state is the
  one the body left.
\<close>

definition try_catch :: "(exn + 'a) \<times> 'r \<Rightarrow> 'a \<Rightarrow> (exn + 'a) \<times> 'r" where
  "try_catch body dflt =
     (case body of (Inl e, r) \<Rightarrow> (Inr dflt, r) | (Inr v, r) \<Rightarrow> (Inr v, r))"

text \<open>
  \<^verbatim>\<open>parsed.data\<close>: reading a property of \<^verbatim>\<open>null\<close> or \<^verbatim>\<open>undefined\<close> throws a
  TypeError; a missing property, and any property of a primitive or an array that is
  not its own, is \<^verbatim>\<open>undefined\<close>.
\<close>

fun prop_data :: "jsval \<Rightarrow> exn + jsval" where
  "prop_data JUndefined = Inl TypeError"
| "prop_data JNull = Inl TypeError"
| "prop_data (JObj kvs) = Inr (case map_of kvs ''data'' of None \<Rightarrow> JUndefined | Some v \<Rightarrow> v)"
| "prop_data v = Inr JUndefined"

text \<open>
  \<^verbatim>\<open>set(key, data, ttl = 3600)\<close>: nothing without a client; otherwise
  \<^verbatim>\<open>await this.redis.setex(key, ttl, JSON.stringify({ data, timestamp: Date.now() }))\<close>
  inside \<^verbatim>\<open>try\<close>/\<^verbatim>\<open>catch\<close>.
\<close>

definition RedisCache_set ::
  "JSON \<Rightarrow> 'r RedisCache \<Rightarrow> string \<Rightarrow> jsval \<Rightarrow> int option \<Rightarrow> int \<Rightarrow> 'r \<Rightarrow> (exn + unit) \<times> 'r" where
  "RedisCache_set J rc key d ttl now r =
     (case redis rc of
        None \<Rightarrow> (Inr (), r)
      | Some cl \<Rightarrow>
          try_catch
            (case JSON_stringify J (JObj [(''data'', d), (''timestamp'', JNum now)]) of
               Inl e \<Rightarrow> (Inl e, r)
             | Inr s \<Rightarrow> redis_setex cl key (case ttl of None \<Rightarrow> 3600 | Some t \<Rightarrow> t) s r)
            ())"

text \<open>
  \<^verbatim>\<open>get(key)\<close>: \<^verbatim>\<open>null\<close> without a client; otherwise, inside
  \<^verbatim>\<open>try\<close>/\<^verbatim>\<open>catch\<close>, \<^verbatim>\<open>result = await this.redis.get(key)\<close>,
  \<^verbatim>\<open>if (!result) return null\<close>, and \<^verbatim>\<open>JSON.parse(result).data\<close>; the handler
  returns \<^verbatim>\<open>null\<close>.
\<close>

definition RedisCache_get ::
  "JSON \<Rightarrow> 'r RedisCache \<Rightarrow> string \<Rightarrow> 'r \<Rightarrow> (exn + jsval) \<times> 'r" where
  "RedisCache_get J rc key r =
     (case redis rc of
        None \<Rightarrow> (Inr JNull, r)
      | Some cl \<Rightarrow>
          try_catch
            (case redis_get cl key r of
               (Inl e, r') \<Rightarrow> (Inl e, r')
             | (Inr result, r') \<Rightarrow>
                 if \<not> truthy result then (Inr JNull, r')
                 else (case JSON_parse J result of
                         Inl e \<Rightarrow> (Inl e, r')
                       | Inr parsed \<Rightarrow> (prop_data parsed, r')))
            JNull)"

text \<open>\<^verbatim>\<open>delete(key)\<close>: \<^verbatim>\<open>await this.redis.del(key)\<close> inside \<^verbatim>\<open>try\<close>/\<^verbatim>\<open>catch\<close>.\<close>

definition RedisCache_delete :: "'r RedisCache \<Rightarrow> string \<Rightarrow> 'r \<Rightarrow> (exn + unit) \<times> 'r" where
  "RedisCache_delete rc key r =
     (case redis rc of
        None \<Rightarrow> (Inr (), r)
      | Some cl \<Rightarrow> try_catch (redis_del cl [key] r) ())"

text \<open>
  \<^verbatim>\<open>if (pattern)\<close> for the optional argument \<^verbatim>\<open>pattern?: string\<close>: true when it
  is given and is not the empty string.
\<close>

definition pattern_given :: "string option \<Rightarrow> bool" where
  "pattern_given pattern = (case pattern of None \<Rightarrow> False | Some p \<Rightarrow> p \<noteq> [])"

text \<open>
  \<^verbatim>\<open>clear(pattern?)\<close>: with a truthy pattern,
  \<^verbatim>\<open>keys = await this.redis.keys(pattern); if (keys.length > 0) await this.redis.del(...keys)\<close>;
  without one (or with the empty string) \<^verbatim>\<open>await this.redis.flushall()\<close>; all inside
  \<^verbatim>\<open>try\<close>/\<^verbatim>\<open>catch\<close>.
\<close>

definition RedisCache_clear :: "'r RedisCache \<Rightarrow> string option \<Rightarrow> 'r \<Rightarrow> (exn + unit) \<times> 'r" where
  "RedisCache_clear rc pattern r =
     (case redis rc of
        None \<Rightarrow> (Inr (), r)
      | Some cl \<Rightarrow>
          try_catch
            (case pattern of
               None \<Rightarrow> redis_flushall cl r
             | Some p \<Rightarrow>
                 if p \<noteq> [] then
                   (case redis_keys cl p r of
                      (Inl e, r') \<Rightarrow> (Inl e, r')
                    | (Inr ks, r') \<Rightarrow>
                        if length ks > 0 then redis_del cl ks r' else (Inr (), r'))
                 else redis_flushall cl r)
            ())"

definition RedisCache_isAvailable :: "'r RedisCache \<Rightarrow> bool" where
  "RedisCache_isAvailable rc = (redis rc \<noteq> None)"

section \<open>BaseCacheService (BaseCache.ts, lines 144-236)\<close>

text \<open>
  \<^verbatim>\<open>CacheConfig\<close> has three optional fields; \<^verbatim>\<open>CacheManagerConfig\<close> extends it
  with \<^verbatim>\<open>redis?\<close> and \<^verbatim>\<open>autoInvalidate?\<close>. \<open>None\<close> is a field that the object
  does not have (\<^verbatim>\<open>undefined\<close> when read).
\<close>

record CacheConfig =
  cfg_ttl :: "int option"
  cfg_maxSize :: "int option"
  cfg_enabled :: "bool option"

record CacheManagerConfig = CacheConfig +
  cfg_redis :: "RedisConfig option"
  cfg_autoInvalidate :: "bool option"

text \<open>The object \<^verbatim>\<open>{}\<close>.\<close>

definition empty_config :: CacheManagerConfig where
  "empty_config =
     \<lparr> cfg_ttl = None, cfg_maxSize = None, cfg_enabled = None,
       cfg_redis = None, cfg_autoInvalidate = None \<rparr>"

text \<open>Truthiness of an optional boolean field (\<^verbatim>\<open>if (x)\<close>, \<^verbatim>\<open>!x\<close>, \<^verbatim>\<open>x || false\<close>).\<close>

definition flag :: "bool option \<Rightarrow> bool" where
  "flag b = (case b of None \<Rightarrow> False | Some v \<Rightarrow> v)"

text \<open>
  Configuration objects are JavaScript objects: they are held by reference, and a write
  through one reference is seen through every other reference to the same object
  (\<^verbatim>\<open>setEnabled\<close> is such a write). The store gives the current contents of each
  object; \<open>next_ref\<close> is the first reference that is not in use, and an object literal
  takes it.
\<close>

type_synonym ref = nat

record store =
  objs :: "ref \<Rightarrow> CacheManagerConfig"
  next_ref :: ref

definition new_object :: "CacheManagerConfig \<Rightarrow> store \<Rightarrow> ref \<times> store" where
  "new_object v h =
     (next_ref h, h \<lparr> objs := (objs h)(next_ref h := v), next_ref := Suc (next_ref h) \<rparr>)"

text \<open>
  \<^verbatim>\<open>{ ttl: 3600, maxSize: 1000, enabled: true, ...config }\<close>: the three defaults,
  each replaced by the field of \<^verbatim>\<open>config\<close> when it has one, and every other field
  of \<^verbatim>\<open>config\<close>.
\<close>

definition spread_defaults :: "CacheManagerConfig \<Rightarrow> CacheManagerConfig" where
  "spread_defaults cfg =
     cfg \<lparr> cfg_ttl := Some (case cfg_ttl cfg of None \<Rightarrow> 3600 | Some t \<Rightarrow> t),
           cfg_maxSize := Some (case cfg_maxSize cfg of None \<Rightarrow> 1000 | Some n \<Rightarrow> n),
           cfg_enabled := Some (case cfg_enabled cfg of None \<Rightarrow> True | Some b \<Rightarrow> b) \<rparr>"

text \<open>
  \<^verbatim>\<open>protected config\<close> is a reference to the service's configuration object. The
  two caches are made by the constructor and reachable from this service only; they are
  part of the service's value.
\<close>

record 'r BaseCacheService =
  memoryCache :: MemoryCache
  redisCache :: "'r RedisCache option"
  config :: ref

text \<open>
  The constructor, \<^verbatim>\<open>constructor(config: CacheConfig = {}, redisConfig?: RedisConfig)\<close>.
  The argument is a reference to the caller's object (or is left out);
  \<^verbatim>\<open>this.config = { ..., ...config }\<close> reads that object and makes a new one, and
  \<^verbatim>\<open>new MemoryCache(this.config.maxSize)\<close> reads the new one. \<open>connect\<close> stands for
  loading the client library and building the client, which \<^const>\<open>RedisCache_new\<close>
  guards. The constructors of ProductService, CatalogService and SalesService only call
  this one.
\<close>

definition BaseCacheService_new ::
  "(RedisConfig \<Rightarrow> exn + 'r driver) \<Rightarrow> ref option \<Rightarrow> RedisConfig option \<Rightarrow> store
   \<Rightarrow> 'r BaseCacheService \<times> store" where
  "BaseCacheService_new connect config_arg redisConfig h =
     (let given = (case config_arg of None \<Rightarrow> empty_config | Some a \<Rightarrow> objs h a);
          (this_config, h') = new_object (spread_defaults given) h
      in (\<lparr> memoryCache = MemoryCache_new (cfg_maxSize (objs h' this_config)),
            redisCache = (case redisConfig of None \<Rightarrow> None
                          | Some rcfg \<Rightarrow> Some (RedisCache_new connect rcfg)),
            config = this_config \<rparr>,
          h'))"

text \<open>
  \<^verbatim>\<open>this.redisCache?.isAvailable()\<close>: the secondary tier when the service has one and
  its client exists, otherwise nothing.
\<close>

definition secondary :: "'r BaseCacheService \<Rightarrow> 'r RedisCache option" where
  "secondary svc =
     (case redisCache svc of
        None \<Rightarrow> None
      | Some rc \<Rightarrow> if RedisCache_isAvailable rc then Some rc else None)"

text \<open>
  The methods below run one call to its end: no other task touches the service between
  the steps of a call. They read the configuration object in the store \<open>h\<close> and do not
  write it. \<^verbatim>\<open>this.config.ttl\<close> is passed on as it is read, so the default of the
  callee's parameter applies when the field is missing.
\<close>

text \<open>
  \<^verbatim>\<open>setCache(key, data, lastModified?)\<close>. \<open>now_mem\<close> is the clock when the memory
  cache is written, \<open>now_redis\<close> when the envelope for Redis is built. An exception of
  the awaited call would propagate.
\<close>

definition setCache ::
  "store \<Rightarrow> JSON \<Rightarrow> 'r BaseCacheService \<Rightarrow> string \<Rightarrow> jsval \<Rightarrow> int option \<Rightarrow> int \<Rightarrow> int \<Rightarrow> 'r
   \<Rightarrow> (exn + unit) \<times> 'r BaseCacheService \<times> 'r" where
  "setCache h J svc key d lm now_mem now_redis r =
     (if \<not> flag (cfg_enabled (objs h (config svc))) then (Inr (), svc, r)
      else
        let svc' = svc \<lparr> memoryCache :=
                     MemoryCache_set (memoryCache svc) key d (cfg_ttl (objs h (config svc)))
                       lm now_mem \<rparr>
        in (case secondary svc of
              None \<Rightarrow> (Inr (), svc', r)
            | Some rc \<Rightarrow>
                (case RedisCache_set J rc key d (cfg_ttl (objs h (config svc))) now_redis r of
                   (res, r') \<Rightarrow> (res, svc', r'))))"

text \<open>
  \<^verbatim>\<open>getCache(key)\<close>. \<open>now_get\<close> is the clock at the memory lookup, \<open>now_fill\<close> at the
  back-fill after the awaited Redis read.
\<close>

definition getCache ::
  "store \<Rightarrow> JSON \<Rightarrow> 'r BaseCacheService \<Rightarrow> string \<Rightarrow> int \<Rightarrow> int \<Rightarrow> 'r
   \<Rightarrow> (exn + jsval) \<times> 'r BaseCacheService \<times> 'r" where
  "getCache h J svc key now_get now_fill r =
     (if \<not> flag (cfg_enabled (objs h (config svc))) then (Inr JNull, svc, r)
      else
        (case MemoryCache_get (memoryCache svc) key now_get of
           (memoryResult, mem') \<Rightarrow>
             if memoryResult \<noteq> JNull then (Inr memoryResult, svc \<lparr> memoryCache := mem' \<rparr>, r)
             else
               (case secondary svc of
                  None \<Rightarrow> (Inr JNull, svc \<lparr> memoryCache := mem' \<rparr>, r)
                | Some rc \<Rightarrow>
                    (case RedisCache_get J rc key r of
                       (Inl e, r') \<Rightarrow> (Inl e, svc \<lparr> memoryCache := mem' \<rparr>, r')
                     | (Inr redisResult, r') \<Rightarrow>
                         if redisResult \<noteq> JNull then
                           (Inr redisResult,
                            svc \<lparr> memoryCache :=
                              MemoryCache_set mem' key redisResult
                                (cfg_ttl (objs h (config svc))) None now_fill \<rparr>,
                            r')
                         else (Inr JNull, svc \<lparr> memoryCache := mem' \<rparr>, r')))))"

text \<open>
  \<^verbatim>\<open>invalidateCache(key)\<close>: delete the key from the memory cache, then from Redis
  when it is available. The \<^verbatim>\<open>enabled\<close> flag is not consulted.
\<close>

definition invalidateCache ::
  "'r BaseCacheService \<Rightarrow> string \<Rightarrow> 'r \<Rightarrow> (exn + unit) \<times> 'r BaseCacheService \<times> 'r" where
  "invalidateCache svc key r =
     (let svc' = svc \<lparr> memoryCache := MemoryCache_delete (memoryCache svc) key \<rparr>
      in (case secondary svc of
            None \<Rightarrow> (Inr (), svc', r)
          | Some rc \<Rightarrow> (case RedisCache_delete rc key r of (res, r') \<Rightarrow> (res, svc', r'))))"

text \<open>
  \<^verbatim>\<open>clearCache(pattern?)\<close>: with a truthy pattern the memory cache is cleared when
  \<^verbatim>\<open>stats.size > 0\<close> (the source's comment: "Simplified - clear all for pattern
  matching"), without one it is cleared; then Redis is cleared with the same argument.
\<close>

definition clearCache ::
  "'r BaseCacheService \<Rightarrow> string option \<Rightarrow> 'r \<Rightarrow> (exn + unit) \<times> 'r BaseCacheService \<times> 'r" where
  "clearCache svc pattern r =
     (let mem = memoryCache svc;
          mem' = (if pattern_given pattern then
                    (if fst (MemoryCache_getStats mem) > 0 then MemoryCache_clear mem else mem)
                  else MemoryCache_clear mem);
          svc' = svc \<lparr> memoryCache := mem' \<rparr>
      in (case secondary svc of
            None \<Rightarrow> (Inr (), svc', r)
          | Some rc \<Rightarrow> (case RedisCache_clear rc pattern r of (res, r') \<Rightarrow> (res, svc', r'))))"

definition isCacheStale :: "'r BaseCacheService \<Rightarrow> string \<Rightarrow> int \<Rightarrow> bool \<times> 'r BaseCacheService" where
  "isCacheStale svc key t =
     (case MemoryCache_isStale (memoryCache svc) key t of
        (b, mem') \<Rightarrow> (b, svc \<lparr> memoryCache := mem' \<rparr>))"

definition getCacheStats :: "'r BaseCacheService \<Rightarrow> (nat \<times> int) \<times> bool" where
  "getCacheStats svc = (MemoryCache_getStats (memoryCache svc), secondary svc \<noteq> None)"

section \<open>The services' invalidation methods\<close>

text \<open>
  \<^verbatim>\<open>await Promise.all([t1, ..., tn])\<close>. Every branch runs, also after another has
  rejected, and the result is the first rejection, if any. Each branch writes the
  memory cache when it is started, before its first \<^verbatim>\<open>await\<close>, so the memory
  writes happen in list order; the model also performs the Redis calls of a branch
  before the next branch starts, which fixes one order of the remote calls.
\<close>

fun promise_all :: "('s \<Rightarrow> (exn + unit) \<times> 's) list \<Rightarrow> 's \<Rightarrow> (exn + unit) \<times> 's" where
  "promise_all [] s = (Inr (), s)"
| "promise_all (t # ts) s =
     (case t s of
        (res, s') \<Rightarrow>
          (case promise_all ts s' of
             (res', s'') \<Rightarrow> ((case res of Inl e \<Rightarrow> Inl e | Inr u \<Rightarrow> res'), s'')))"

text \<open>ProductService.invalidateProductCache and invalidateCatalogCache.\<close>

definition ProductService_invalidateProductCache ::
  "'r BaseCacheService \<Rightarrow> 'r \<Rightarrow> (exn + unit) \<times> 'r BaseCacheService \<times> 'r" where
  "ProductService_invalidateProductCache svc r =
     promise_all
       [\<lambda>(s, r). invalidateCache s ''products:all'' r,
        \<lambda>(s, r). invalidateCache s ''products:low-stock'' r,
        \<lambda>(s, r). clearCache s (Some ''products:query:*'') r,
        \<lambda>(s, r). clearCache s (Some ''products:search:*'') r]
       (svc, r)"

definition ProductService_invalidateCatalogCache ::
  "'r BaseCacheService \<Rightarrow> 'r \<Rightarrow> (exn + unit) \<times> 'r BaseCacheService \<times> 'r" where
  "ProductService_invalidateCatalogCache svc r = invalidateCache svc ''catalog:data'' r"

text \<open>CatalogService.invalidateCatalogCache and invalidateSpecificCache.\<close>

definition CatalogService_invalidateCatalogCache ::
  "'r BaseCacheService \<Rightarrow> 'r \<Rightarrow> (exn + unit) \<times> 'r BaseCacheService \<times> 'r" where
  "CatalogService_invalidateCatalogCache svc r =
     promise_all
       [\<lambda>(s, r). invalidateCache s ''catalog:categories'' r,
        \<lambda>(s, r). invalidateCache s ''catalog:brands'' r,
        \<lambda>(s, r). invalidateCache s ''catalog:suppliers'' r,
        \<lambda>(s, r). invalidateCache s ''catalog:full'' r,
        \<lambda>(s, r). invalidateCache s ''catalog:categories-with-products'' r,
        \<lambda>(s, r). clearCache s (Some ''catalog:specs:*'') r]
       (svc, r)"

datatype catalog_type = categories | brands | suppliers | especificaciones

fun CatalogService_invalidateSpecificCache ::
  "catalog_type \<Rightarrow> 'r BaseCacheService \<Rightarrow> 'r \<Rightarrow> (exn + unit) \<times> 'r BaseCacheService \<times> 'r" where
  "CatalogService_invalidateSpecificCache categories svc r =
     promise_all
       [\<lambda>(s, r). invalidateCache s ''catalog:categories'' r,
        \<lambda>(s, r). invalidateCache s ''catalog:full'' r,
        \<lambda>(s, r). invalidateCache s ''catalog:categories-with-products'' r]
       (svc, r)"
| "CatalogService_invalidateSpecificCache brands svc r =
     promise_all
       [\<lambda>(s, r). invalidateCache s ''catalog:brands'' r,
        \<lambda>(s, r). invalidateCache s ''catalog:full'' r]
       (svc, r)"
| "CatalogService_invalidateSpecificCache suppliers svc r =
     promise_all
       [\<lambda>(s, r). invalidateCache s ''catalog:suppliers'' r,
        \<lambda>(s, r). invalidateCache s ''catalog:full'' r]
       (svc, r)"
| "CatalogService_invalidateSpecificCache especificaciones svc r =
     promise_all
       [\<lambda>(s, r). clearCache s (Some ''catalog:specs:*'') r,
        \<lambda>(s, r). invalidateCache s ''catalog:full'' r]
       (svc, r)"

text \<open>SalesService.invalidateSalesCache and invalidateServiceCache.\<close>

definition SalesService_invalidateSalesCache ::
  "'r BaseCacheService \<Rightarrow> 'r \<Rightarrow> (exn + unit) \<times> 'r BaseCacheService \<times> 'r" where
  "SalesService_invalidateSalesCache svc r =
     promise_all
       [\<lambda>(s, r). invalidateCache s ''sales:stats'' r,
        \<lambda>(s, r). clearCache s (Some ''sales:recent:*'') r]
       (svc, r)"

definition SalesService_invalidateServiceCache ::
  "'r BaseCacheService \<Rightarrow> 'r \<Rightarrow> (exn + unit) \<times> 'r BaseCacheService \<times> 'r" where
  "SalesService_invalidateServiceCache svc r =
     promise_all
       [\<lambda>(s, r). invalidateCache s ''service:stats'' r,
        \<lambda>(s, r). clearCache s (Some ''service:recent:*'') r]
       (svc, r)"

section \<open>CacheManager (CacheManager.ts)\<close>

record 'r CacheManager =
  productService :: "'r BaseCacheService"
  catalogService :: "'r BaseCacheService"
  salesService :: "'r BaseCacheService"
  manager_config :: ref

text \<open>
  \<^verbatim>\<open>{ ttl: 3600, maxSize: 1000, enabled: true, autoInvalidate: true, ...config }\<close>
\<close>

definition manager_defaults :: "CacheManagerConfig \<Rightarrow> CacheManagerConfig" where
  "manager_defaults cfg =
     \<lparr> cfg_ttl = Some (case cfg_ttl cfg of None \<Rightarrow> 3600 | Some t \<Rightarrow> t),
       cfg_maxSize = Some (case cfg_maxSize cfg of None \<Rightarrow> 1000 | Some n \<Rightarrow> n),
       cfg_enabled = Some (case cfg_enabled cfg of None \<Rightarrow> True | Some b \<Rightarrow> b),
       cfg_redis = cfg_redis cfg,
       cfg_autoInvalidate =
         Some (case cfg_autoInvalidate cfg of None \<Rightarrow> True | Some b \<Rightarrow> b) \<rparr>"

text \<open>
  The constructor, \<^verbatim>\<open>constructor(config: CacheManagerConfig = {})\<close>: a new object
  for \<^verbatim>\<open>this.config\<close>, then
  \<^verbatim>\<open>new ProductService(this.config, this.config.redis)\<close> and the same for the catalog
  and the sales service: each constructor receives the reference to the manager's
  object.
\<close>

definition CacheManager_new ::
  "(RedisConfig \<Rightarrow> exn + 'r driver) \<Rightarrow> ref option \<Rightarrow> store \<Rightarrow> 'r CacheManager \<times> store" where
  "CacheManager_new connect config_arg h =
     (let given = (case config_arg of None \<Rightarrow> empty_config | Some a \<Rightarrow> objs h a);
          (this_config, h0) = new_object (manager_defaults given) h;
          (product, h1) =
             BaseCacheService_new connect (Some this_config) (cfg_redis (objs h0 this_config)) h0;
          (catalog, h2) =
             BaseCacheService_new connect (Some this_config) (cfg_redis (objs h1 this_config)) h1;
          (sales, h3) =
             BaseCacheService_new connect (Some this_config) (cfg_redis (objs h2 this_config)) h2
      in (\<lparr> productService = product, catalogService = catalog, salesService = sales,
            manager_config = this_config \<rparr>,
          h3))"

text \<open>
  \<^verbatim>\<open>setEnabled(enabled) { this.config.enabled = enabled; }\<close>: a write to the object
  that \<^verbatim>\<open>this.config\<close> refers to.
\<close>

definition setEnabled :: "'r CacheManager \<Rightarrow> bool \<Rightarrow> store \<Rightarrow> store" where
  "setEnabled m b h =
     h \<lparr> objs := (objs h)(manager_config m :=
            (objs h (manager_config m)) \<lparr> cfg_enabled := Some b \<rparr>) \<rparr>"

text \<open>\<^verbatim>\<open>isEnabled() { return this.config.enabled || false; }\<close>\<close>

definition isEnabled :: "'r CacheManager \<Rightarrow> store \<Rightarrow> bool" where
  "isEnabled m h = flag (cfg_enabled (objs h (manager_config m)))"

text \<open>
  The models that get hooks, and the mongoose operations a hook is registered for
  (\<^verbatim>\<open>schema.post([...], callback)\<close>). For each model the callback of the update
  operations and the callback of the delete operations have the same body.
\<close>

datatype model = Product | Category | Brand | Supplier | Especificacion | SalesNote | ServiceRequest

datatype mutation =
  Save | FindOneAndUpdate | UpdateOne | UpdateMany | FindOneAndDelete | DeleteOne | DeleteMany

text \<open>A method of one of the manager's services, as a step on the manager.\<close>

definition on_product ::
  "('r BaseCacheService \<Rightarrow> 'r \<Rightarrow> (exn + unit) \<times> 'r BaseCacheService \<times> 'r)
   \<Rightarrow> 'r CacheManager \<times> 'r \<Rightarrow> (exn + unit) \<times> 'r CacheManager \<times> 'r" where
  "on_product f = (\<lambda>(m, r).
     case f (productService m) r of (res, svc', r') \<Rightarrow> (res, m \<lparr> productService := svc' \<rparr>, r'))"

definition on_catalog ::
  "('r BaseCacheService \<Rightarrow> 'r \<Rightarrow> (exn + unit) \<times> 'r BaseCacheService \<times> 'r)
   \<Rightarrow> 'r CacheManager \<times> 'r \<Rightarrow> (exn + unit) \<times> 'r CacheManager \<times> 'r" where
  "on_catalog f = (\<lambda>(m, r).
     case f (catalogService m) r of (res, svc', r') \<Rightarrow> (res, m \<lparr> catalogService := svc' \<rparr>, r'))"

definition on_sales ::
  "('r BaseCacheService \<Rightarrow> 'r \<Rightarrow> (exn + unit) \<times> 'r BaseCacheService \<times> 'r)
   \<Rightarrow> 'r CacheManager \<times> 'r \<Rightarrow> (exn + unit) \<times> 'r CacheManager \<times> 'r" where
  "on_sales f = (\<lambda>(m, r).
     case f (salesService m) r of (res, svc', r') \<Rightarrow> (res, m \<lparr> salesService := svc' \<rparr>, r'))"

text \<open>
  The bodies of the callbacks that setupProductHooks, setupCatalogHooks and
  setupSalesHooks pass to \<^verbatim>\<open>Model.schema.post([...], callback)\<close>: what the manager
  does when such a callback is run. Only the bodies are modelled. The constructor
  passes them when \<^verbatim>\<open>this.config.autoInvalidate\<close> is truthy, inside
  \<^verbatim>\<open>try\<close>/\<^verbatim>\<open>catch\<close>, to schemas whose models were already compiled when their
  modules were loaded (\<^verbatim>\<open>mongoose.model(...)\<close> at the end of each model file);
  whether mongoose then runs a callback on a mutation is not part of this model.
\<close>

fun post_hook ::
  "model \<Rightarrow> mutation \<Rightarrow> 'r CacheManager \<Rightarrow> 'r \<Rightarrow> (exn + unit) \<times> 'r CacheManager \<times> 'r" where
  "post_hook Product op m r = on_product ProductService_invalidateProductCache (m, r)"
| "post_hook Category op m r =
     promise_all
       [on_catalog (CatalogService_invalidateSpecificCache categories),
        on_product ProductService_invalidateProductCache] (m, r)"
| "post_hook Brand op m r =
     promise_all
       [on_catalog (CatalogService_invalidateSpecificCache brands),
        on_product ProductService_invalidateProductCache] (m, r)"
| "post_hook Supplier op m r =
     promise_all
       [on_catalog (CatalogService_invalidateSpecificCache suppliers),
        on_product ProductService_invalidateProductCache] (m, r)"
| "post_hook Especificacion op m r =
     on_catalog (CatalogService_invalidateSpecificCache especificaciones) (m, r)"
| "post_hook SalesNote op m r = on_sales SalesService_invalidateSalesCache (m, r)"
| "post_hook ServiceRequest op m r = on_sales SalesService_invalidateServiceCache (m, r)"

section \<open>Test doubles\<close>

text \<open>
  Two clients whose remote state is the list of the calls they received: one answers
  every call, the other rejects every call. And a stand-in for \<^verbatim>\<open>JSON\<close>.
\<close>

datatype call = Setex string int string | Get string | Del "string list" | Keys string | Flushall

definition recording_driver :: "call list driver" where
  "recording_driver =
     \<lparr> redis_setex = (\<lambda>k t s log. (Inr (), log @ [Setex k t s])),
       redis_get = (\<lambda>k log. (Inr (JStr ''payload''), log @ [Get k])),
       redis_del = (\<lambda>ks log. (Inr (), log @ [Del ks])),
       redis_keys = (\<lambda>p log. (Inr [''products:query:a'', ''products:query:b''], log @ [Keys p])),
       redis_flushall = (\<lambda>log. (Inr (), log @ [Flushall])) \<rparr>"

definition failing_driver :: "call list driver" where
  "failing_driver =
     \<lparr> redis_setex = (\<lambda>k t s log. (Inl TransportError, log @ [Setex k t s])),
       redis_get = (\<lambda>k log. (Inl TransportError, log @ [Get k])),
       redis_del = (\<lambda>ks log. (Inl TransportError, log @ [Del ks])),
       redis_keys = (\<lambda>p log. (Inl TransportError, log @ [Keys p])),
       redis_flushall = (\<lambda>log. (Inl TransportError, log @ [Flushall])) \<rparr>"

definition stub_JSON :: JSON where
  "stub_JSON =
     \<lparr> JSON_stringify = (\<lambda>v. Inr ''{}''),
       JSON_parse = (\<lambda>v. Inr (JObj [(''data'', JNum 7), (''timestamp'', JNum 0)])) \<rparr>"

text \<open>
  A store with no object in use, and the store after the literal
  \<^verbatim>\<open>{ ttl: 60, maxSize: 2 }\<close> was made in it, which is then at reference 0.
\<close>

definition empty_store :: store where
  "empty_store = \<lparr> objs = (\<lambda>a. empty_config), next_ref = 0 \<rparr>"

definition literal_store :: store where
  "literal_store =
     snd (new_object (empty_config \<lparr> cfg_ttl := Some 60, cfg_maxSize := Some 2 \<rparr>) empty_store)"

text \<open>
  A service built by the constructor from that literal around a given client, and the
  store the constructor leaves.
\<close>

definition demo_service :: "call list driver \<Rightarrow> call list BaseCacheService" where
  "demo_service cl =
     fst (BaseCacheService_new (\<lambda>cfg. Inr cl) (Some 0)
            (Some \<lparr> url = ''https://example'', token = ''secret'' \<rparr>) literal_store)"

definition demo_store :: store where
  "demo_store =
     snd (BaseCacheService_new (\<lambda>cfg. Inr recording_driver) (Some 0)
            (Some \<lparr> url = ''https://example'', token = ''secret'' \<rparr>) literal_store)"

text \<open>
  A manager built by the constructor with no argument, so with the default
  configuration and no Redis, and the store the constructor leaves; then the manager
  with one cached entry in its product service and one in its catalog service.
\<close>

definition fresh_manager :: "call list CacheManager" where
  "fresh_manager = fst (CacheManager_new (\<lambda>cfg. Inr recording_driver) None empty_store)"

definition manager_store :: store where
  "manager_store = snd (CacheManager_new (\<lambda>cfg. Inr recording_driver) None empty_store)"

definition demo_manager :: "call list CacheManager" where
  "demo_manager =
     fresh_manager
       \<lparr> productService :=
           fst (snd (setCache manager_store stub_JSON (productService fresh_manager)
                       ''products:all'' (JNum 2) (Some 0) 0 0 [])),
         catalogService :=
           fst (snd (setCache manager_store stub_JSON (catalogService fresh_manager)
                       ''catalog:categories'' (JNum 1) (Some 0) 0 0 [])) \<rparr>"

definition scenario_ops :: "cache_op list" where
  "scenario_ops =
     [OpSet ''a'' (JNum 1) None None 0, OpSet ''b'' (JNum 2) None None 1,
      OpSet ''c'' (JNum 3) None None 2]"

section \<open>Properties of MemoryCache\<close>

text \<open>
  C3. \<^verbatim>\<open>isStale(key, t)\<close> is true when there is no entry for the key, true when
  the entry has no \<^verbatim>\<open>lastModified\<close>, and otherwise true exactly when
  \<open>t\<close> is later than the entry's \<^verbatim>\<open>lastModified\<close>; for an entry written with
  \<^verbatim>\<open>lastModified = T0\<close> it is false at \<open>T0\<close> and true one second later; and
  the cache is the same after the call.
\<close>

theorem isStale_spec:
  "fst (MemoryCache_isStale c key t) =
     (case map_of (cache c) key of
        None \<Rightarrow> True
      | Some e \<Rightarrow> (case lastModified e of None \<Rightarrow> True | Some lm \<Rightarrow> t > lm))
   \<and> snd (MemoryCache_isStale c key t) = c
   \<and> fst (MemoryCache_isStale (MemoryCache_set c key d secs (Some T0) now) key T0) = False
   \<and> fst (MemoryCache_isStale (MemoryCache_set c key d secs (Some T0) now) key (T0 + 1000)) = True"
  by (simp add: MemoryCache_isStale_def MemoryCache_set_def Let_def update_conv'
      split: option.splits)

text \<open>
  An entry written with \<^verbatim>\<open>lastModified\<close> 5000: not stale at 5000, stale at 6000; and
  a key that was never written is stale.
\<close>

theorem isStale_spec_witness:
  "fst (MemoryCache_isStale
          (MemoryCache_set (MemoryCache_new None) ''k'' (JStr ''v'') None (Some 5000) 0)
          ''k'' 5000) = False
   \<and> fst (MemoryCache_isStale
          (MemoryCache_set (MemoryCache_new None) ''k'' (JStr ''v'') None (Some 5000) 0)
          ''k'' 6000) = True
   \<and> fst (MemoryCache_isStale (MemoryCache_new None) ''k'' 5000) = True"
  using isStale_spec[of "MemoryCache_new None" "''k''" 5000 "JStr ''v''" None 5000 0]
  by (simp add: MemoryCache_isStale_def MemoryCache_new_def)

subsection \<open>The size bound\<close>

lemma length_update_alist:
  "length (AList.update k v al) = (if k \<in> fst ` set al then length al else Suc (length al))"
  by (induction al) auto

lemma evict_first_distinct:
  "distinct (map fst al) \<Longrightarrow> [] \<notin> fst ` set al \<Longrightarrow> evict_first al = tl al"
  by (cases al) (auto simp: AList.delete_id)

lemma MemoryCache_new_default: "MemoryCache_new None = MemoryCache_new (Some 1000)"
  by (simp add: MemoryCache_new_def)

lemma cache_inv_new: "0 \<le> m \<Longrightarrow> cache_inv m (MemoryCache_new (Some m))"
  by (simp add: cache_inv_def MemoryCache_new_def)

lemma cache_inv_set:
  assumes "cache_inv m c" "1 \<le> m" "key \<noteq> []"
  shows "cache_inv m (MemoryCache_set c key d secs lm now)"
proof (cases "int (length (cache c)) \<ge> maxSize c")
  case True
  with assms have full: "int (length (cache c)) = m" and ne: "cache c \<noteq> []"
    by (auto simp: cache_inv_def)
  from assms have ev: "evict_first (cache c) = tl (cache c)"
    by (simp add: cache_inv_def evict_first_distinct)
  have d: "distinct (map fst (tl (cache c)))"
    using assms(1) by (simp add: cache_inv_def distinct_tl map_tl)
  have n: "[] \<notin> fst ` set (tl (cache c))"
    using assms(1) ne by (cases "cache c") (auto simp: cache_inv_def)
  have l: "int (length (tl (cache c))) = m - 1"
    using full ne by (cases "cache c") auto
  show ?thesis
    using True assms d n l ev
    by (auto simp: cache_inv_def MemoryCache_set_def Let_def distinct_update
        dom_update length_update_alist)
next
  case False
  with assms show ?thesis
    by (auto simp: cache_inv_def MemoryCache_set_def Let_def distinct_update
        dom_update length_update_alist)
qed

lemma cache_inv_delete: "cache_inv m c \<Longrightarrow> cache_inv m (MemoryCache_delete c key)"
  using length_delete_le[of key "cache c"] dom_delete_subset[of key "cache c"]
  by (auto simp: cache_inv_def MemoryCache_delete_def distinct_delete)

lemma cache_inv_get: "cache_inv m c \<Longrightarrow> cache_inv m (snd (MemoryCache_get c key now))"
  using length_delete_le[of key "cache c"] dom_delete_subset[of key "cache c"]
  by (auto simp: cache_inv_def MemoryCache_get_def distinct_delete split: option.splits)

lemma cache_inv_clear: "0 \<le> m \<Longrightarrow> cache_inv m c \<Longrightarrow> cache_inv m (MemoryCache_clear c)"
  by (auto simp: cache_inv_def MemoryCache_clear_def)

lemma cache_inv_apply_op:
  "cache_inv m c \<Longrightarrow> 1 \<le> m \<Longrightarrow> set_key_nonempty op \<Longrightarrow> cache_inv m (apply_op c op)"
  by (cases op) (simp_all add: cache_inv_set cache_inv_get cache_inv_delete cache_inv_clear)

lemma cache_inv_run_ops:
  "cache_inv m c \<Longrightarrow> 1 \<le> m \<Longrightarrow> \<forall>op \<in> set ops. set_key_nonempty op \<Longrightarrow>
   cache_inv m (run_ops c ops)"
  unfolding run_ops_def
  by (induction ops arbitrary: c) (simp_all add: cache_inv_apply_op)

lemma set_when_full:
  assumes "cache_inv m c" "1 \<le> m" "int (length (cache c)) \<ge> m"
  shows "\<exists>firstKey e rest. cache c = (firstKey, e) # rest \<and>
           (\<forall>key d secs lm now. cache (MemoryCache_set c key d secs lm now) =
              AList.update key \<lparr> data = d,
                expires = now + (case secs of None \<Rightarrow> 3600 | Some t \<Rightarrow> t) * 1000,
                lastModified = lm \<rparr> rest)"
proof -
  from assms obtain firstKey e rest where c: "cache c = (firstKey, e) # rest"
    by (cases "cache c") (auto simp: cache_inv_def)
  from assms have ev: "evict_first (cache c) = tl (cache c)"
    by (simp add: cache_inv_def evict_first_distinct)
  from assms have "int (length (cache c)) \<ge> maxSize c" by (simp add: cache_inv_def)
  with c ev show ?thesis
    by (simp add: MemoryCache_set_def Let_def)
qed

text \<open>
  C1 (amended). On a cache constructed with a bound of at least 1 and used with
  non-empty keys, the entry count after every sequence of set, get, delete and clear
  calls is at most the bound; and when the cache holds as many entries as the bound, a
  set removes the first entry in insertion order, and nothing else, and then stores the
  new entry in what is left.
\<close>

theorem set_bounded:
  assumes "1 \<le> m" and "\<forall>op \<in> set ops. set_key_nonempty op"
  shows "int (fst (MemoryCache_getStats (run_ops (MemoryCache_new (Some m)) ops))) \<le> m
    \<and> (int (fst (MemoryCache_getStats (run_ops (MemoryCache_new (Some m)) ops))) \<ge> m \<longrightarrow>
        (\<exists>firstKey e rest.
           cache (run_ops (MemoryCache_new (Some m)) ops) = (firstKey, e) # rest \<and>
           (\<forall>key d secs lm now.
              cache (MemoryCache_set (run_ops (MemoryCache_new (Some m)) ops) key d secs lm now) =
              AList.update key \<lparr> data = d,
                expires = now + (case secs of None \<Rightarrow> 3600 | Some t \<Rightarrow> t) * 1000,
                lastModified = lm \<rparr> rest)))"
proof -
  let ?c = "run_ops (MemoryCache_new (Some m)) ops"
  have inv: "cache_inv m ?c"
    using assms by (intro cache_inv_run_ops cache_inv_new) auto
  then have le: "int (length (cache ?c)) \<le> m" by (simp add: cache_inv_def)
  moreover have "int (length (cache ?c)) \<ge> m \<Longrightarrow> ?thesis"
    using set_when_full[OF inv assms(1)] le
    by (simp add: MemoryCache_getStats_def)
  ultimately show ?thesis
    by (auto simp: MemoryCache_getStats_def)
qed

theorem set_bounded_witness:
  "(1::int) \<le> 2 \<and> list_all set_key_nonempty scenario_ops
   \<and> int (fst (MemoryCache_getStats (run_ops (MemoryCache_new (Some 2)) scenario_ops))) \<le> 2
   \<and> map fst (cache (run_ops (MemoryCache_new (Some 2)) scenario_ops)) = [''b'', ''c'']
   \<and> map fst (cache (MemoryCache_set (run_ops (MemoryCache_new (Some 2)) scenario_ops)
        ''d'' (JNum 4) None None 3)) = [''c'', ''d'']"
  using set_bounded[of 2 scenario_ops]
  by (simp add: run_ops_def scenario_ops_def MemoryCache_new_def MemoryCache_set_def Let_def
      MemoryCache_getStats_def)

text \<open>
  The claim as stated fails with a bound of 0, where one \<^verbatim>\<open>set\<close> leaves one
  entry, and with the empty string as the oldest key, which is never evicted: with a
  bound of 1, \<^verbatim>\<open>set("")\<close> then \<^verbatim>\<open>set("a")\<close> leaves two entries.
\<close>

theorem set_bound_counterexample:
  "\<not> int (fst (MemoryCache_getStats
        (run_ops (MemoryCache_new (Some 0)) [OpSet ''a'' (JNum 1) None None 0]))) \<le> 0
   \<and> \<not> int (fst (MemoryCache_getStats
        (run_ops (MemoryCache_new (Some 1))
           [OpSet [] (JNum 1) None None 0, OpSet ''a'' (JNum 2) None None 1]))) \<le> 1"
  by (simp add: run_ops_def MemoryCache_new_def MemoryCache_set_def Let_def
      MemoryCache_getStats_def)

subsection \<open>Lookup and expiry\<close>

lemma map_of_set_same:
  "map_of (cache (MemoryCache_set c key d secs lm now)) key =
     Some \<lparr> data = d, expires = now + (case secs of None \<Rightarrow> 3600 | Some t \<Rightarrow> t) * 1000,
            lastModified = lm \<rparr>"
  by (simp add: MemoryCache_set_def Let_def update_conv')

text \<open>
  C2 (amended). \<^verbatim>\<open>get(key)\<close> returns the stored value when an entry is present and
  the clock is not later than its \<^verbatim>\<open>expires\<close> (at the instant the two are equal
  the value is still returned); when the clock is later it deletes the entry and
  returns \<^verbatim>\<open>null\<close>; with no entry it returns \<^verbatim>\<open>null\<close>. So after
  \<^verbatim>\<open>set(key, v, ttl)\<close> at time \<open>t0\<close>, \<^verbatim>\<open>get(key)\<close> at time \<open>t\<close> returns
  \<open>v\<close> while \<open>t \<le> t0 + 1000 * ttl\<close> and \<^verbatim>\<open>null\<close> afterwards.
\<close>

theorem get_spec:
  "MemoryCache_get c key now =
     (case map_of (cache c) key of
        None \<Rightarrow> (JNull, c)
      | Some e \<Rightarrow>
          if now \<le> expires e then (data e, c)
          else (JNull, c \<lparr> cache := AList.delete key (cache c) \<rparr>))
   \<and> map_of (cache (snd (MemoryCache_get c key now))) key =
       (case map_of (cache c) key of
          None \<Rightarrow> None
        | Some e \<Rightarrow> if now \<le> expires e then Some e else None)
   \<and> fst (MemoryCache_get (MemoryCache_set c key v secs lm t0) key t) =
       (if t \<le> t0 + (case secs of None \<Rightarrow> 3600 | Some s \<Rightarrow> s) * 1000 then v else JNull)"
  by (auto simp: MemoryCache_get_def map_of_set_same delete_conv' split: option.splits)

text \<open>
  The scenario \<^verbatim>\<open>set("p:1", "A", 60)\<close> at time 0: the value is returned at once and
  at 60 s, and \<^verbatim>\<open>null\<close> at 61 s, when the entry is removed.
\<close>

theorem get_spec_witness:
  "fst (MemoryCache_get
          (MemoryCache_set (MemoryCache_new None) ''p:1'' (JStr ''A'') (Some 60) None 0)
          ''p:1'' 0) = JStr ''A''
   \<and> fst (MemoryCache_get
          (MemoryCache_set (MemoryCache_new None) ''p:1'' (JStr ''A'') (Some 60) None 0)
          ''p:1'' 61000) = JNull
   \<and> cache (snd (MemoryCache_get
          (MemoryCache_set (MemoryCache_new None) ''p:1'' (JStr ''A'') (Some 60) None 0)
          ''p:1'' 61000)) = []"
  using get_spec[of "MemoryCache_new None" "''p:1''" 0 "JStr ''A''" "Some 60" None 0 61000]
    get_spec[of "MemoryCache_set (MemoryCache_new None) ''p:1'' (JStr ''A'') (Some 60) None 0"
      "''p:1''" 61000 "JStr ''A''" "Some 60" None 0 0]
  by (simp add: MemoryCache_get_def MemoryCache_set_def MemoryCache_new_def Let_def)

text \<open>
  The claim as stated fails at the instant the clock equals \<^verbatim>\<open>expires\<close>: the entry
  written at time 0 with a TTL of 60 s is still returned at 60000 ms.
\<close>

theorem get_at_expiry_counterexample:
  "map_of (cache (MemoryCache_set (MemoryCache_new None) ''p:1'' (JStr ''A'') (Some 60) None 0))
     ''p:1'' = Some \<lparr> data = JStr ''A'', expires = 60000, lastModified = None \<rparr>
   \<and> fst (MemoryCache_get
          (MemoryCache_set (MemoryCache_new None) ''p:1'' (JStr ''A'') (Some 60) None 0)
          ''p:1'' 60000) = JStr ''A''
   \<and> fst (MemoryCache_get
          (MemoryCache_set (MemoryCache_new None) ''p:1'' (JStr ''A'') (Some 60) None 0)
          ''p:1'' 60000) \<noteq> JNull"
  by (simp add: MemoryCache_get_def MemoryCache_set_def MemoryCache_new_def Let_def)

lemma isStale_of_expired:
  assumes "map_of (cache c) key = Some e" and "expires e < now"
    and "lastModified e = Some lm" and "t \<le> lm"
  shows "fst (MemoryCache_isStale c key t) = False \<and> fst (MemoryCache_get c key now) = JNull"
  using assms by (simp add: MemoryCache_isStale_def MemoryCache_get_def)

text \<open>
  C9. \<^verbatim>\<open>isStale\<close> does not look at \<^verbatim>\<open>expires\<close>: there is a cache with an
  expired entry whose \<^verbatim>\<open>lastModified\<close> is not before the probe, for which
  \<^verbatim>\<open>isStale\<close> is false although \<^verbatim>\<open>get\<close> returns \<^verbatim>\<open>null\<close>.
\<close>

theorem isStale_ignores_expiry:
  "\<exists>c key now t e.
     map_of (cache c) key = Some e \<and> expires e < now \<and> lastModified e = Some t
     \<and> fst (MemoryCache_isStale c key t) = False
     \<and> fst (MemoryCache_get c key now) = JNull"
proof -
  let ?c = "MemoryCache_set (MemoryCache_new None) ''k'' (JStr ''v'') (Some 60) (Some 5000) 0"
  let ?e = "\<lparr> data = JStr ''v'', expires = 60000, lastModified = Some 5000 \<rparr>"
  have "map_of (cache ?c) ''k'' = Some ?e"
    by (simp add: map_of_set_same)
  moreover have "fst (MemoryCache_isStale ?c ''k'' 5000) = False"
    by (simp add: MemoryCache_isStale_def map_of_set_same)
  moreover have "fst (MemoryCache_get ?c ''k'' 61000) = JNull"
    by (simp add: MemoryCache_get_def map_of_set_same)
  ultimately show ?thesis
    by (intro exI[of _ ?c] exI[of _ "''k''"] exI[of _ 61000] exI[of _ 5000] exI[of _ ?e]) simp
qed

subsection \<open>The secondary tier never throws\<close>

lemma try_catch_fst: "fst (try_catch body dflt) = Inr (case fst body of Inl e \<Rightarrow> dflt | Inr v \<Rightarrow> v)"
  by (auto simp: try_catch_def split: prod.splits sum.splits)

lemma try_catch_snd: "snd (try_catch body dflt) = snd body"
  by (auto simp: try_catch_def split: prod.splits sum.splits)

lemma RedisCache_set_ok: "fst (RedisCache_set J rc key d secs now r) = Inr ()"
  by (simp add: RedisCache_set_def try_catch_fst split: option.splits)

lemma RedisCache_delete_ok: "fst (RedisCache_delete rc key r) = Inr ()"
  by (simp add: RedisCache_delete_def try_catch_fst split: option.splits)

lemma RedisCache_clear_ok: "fst (RedisCache_clear rc pattern r) = Inr ()"
  by (simp add: RedisCache_clear_def try_catch_fst split: option.splits)

lemma RedisCache_get_ok: "\<exists>v. fst (RedisCache_get J rc key r) = Inr v"
  by (simp add: RedisCache_get_def try_catch_fst split: option.splits)

lemma RedisCache_get_transport_error:
  "redis rc = Some cl \<Longrightarrow> fst (redis_get cl key r) = Inl e \<Longrightarrow>
   RedisCache_get J rc key r = (Inr JNull, snd (redis_get cl key r))"
  by (cases "redis_get cl key r") (simp add: RedisCache_get_def try_catch_def)

lemma secondary_SomeD: "secondary svc = Some rc \<Longrightarrow> redisCache svc = Some rc \<and> redis rc \<noteq> None"
  by (auto simp: secondary_def RedisCache_isAvailable_def split: option.splits if_splits)

subsection \<open>The coordinator\<close>

lemma setCache_fst: "fst (setCache h J svc key d lm now_mem now_redis r) = Inr ()"
  by (simp add: setCache_def Let_def RedisCache_set_ok split_beta split: option.splits)

lemma setCache_svc:
  "fst (snd (setCache h J svc key d lm now_mem now_redis r)) =
     (if flag (cfg_enabled (objs h (config svc)))
      then svc \<lparr> memoryCache :=
             MemoryCache_set (memoryCache svc) key d (cfg_ttl (objs h (config svc))) lm now_mem \<rparr>
      else svc)"
  by (simp add: setCache_def Let_def split_beta split: option.splits)

lemma invalidateCache_fst: "fst (invalidateCache svc key r) = Inr ()"
  by (simp add: invalidateCache_def Let_def RedisCache_delete_ok split_beta split: option.splits)

lemma invalidateCache_svc:
  "fst (snd (invalidateCache svc key r)) =
     svc \<lparr> memoryCache := MemoryCache_delete (memoryCache svc) key \<rparr>"
  by (simp add: invalidateCache_def Let_def split_beta split: option.splits)

lemma clearCache_fst: "fst (clearCache svc pattern r) = Inr ()"
  by (simp add: clearCache_def Let_def RedisCache_clear_ok split_beta split: option.splits)

lemma clearCache_svc:
  "fst (snd (clearCache svc pattern r)) = svc \<lparr> memoryCache := MemoryCache_clear (memoryCache svc) \<rparr>"
  by (cases "memoryCache svc")
     (simp add: clearCache_def Let_def split_beta MemoryCache_getStats_def MemoryCache_clear_def
        split: option.splits)

lemma getCache_ok: "\<exists>v. fst (getCache h J svc key now_get now_fill r) = Inr v"
proof (cases "secondary svc")
  case None
  then show ?thesis by (simp add: getCache_def split_beta)
next
  case (Some rc)
  obtain v where "fst (RedisCache_get J rc key r) = Inr v" using RedisCache_get_ok[of J rc key r] by auto
  then show ?thesis using Some
    by (cases "RedisCache_get J rc key r") (simp add: getCache_def split_beta)
qed

lemma getCache_disabled:
  "\<not> flag (cfg_enabled (objs h (config svc))) \<Longrightarrow> getCache h J svc key now_get now_fill r = (Inr JNull, svc, r)"
  by (simp add: getCache_def)

lemma getCache_memory_hit:
  "flag (cfg_enabled (objs h (config svc))) \<Longrightarrow> fst (MemoryCache_get (memoryCache svc) key now_get) \<noteq> JNull \<Longrightarrow>
   getCache h J svc key now_get now_fill r =
     (Inr (fst (MemoryCache_get (memoryCache svc) key now_get)),
      svc \<lparr> memoryCache := snd (MemoryCache_get (memoryCache svc) key now_get) \<rparr>, r)"
  by (simp add: getCache_def split_beta)

lemma getCache_backfill:
  assumes "flag (cfg_enabled (objs h (config svc)))" "fst (MemoryCache_get (memoryCache svc) key now_get) = JNull"
    "secondary svc = Some rc" "fst (RedisCache_get J rc key r) = Inr v" "v \<noteq> JNull"
  shows "getCache h J svc key now_get now_fill r =
     (Inr v,
      svc \<lparr> memoryCache :=
        MemoryCache_set (snd (MemoryCache_get (memoryCache svc) key now_get)) key v
          (cfg_ttl (objs h (config svc))) None now_fill \<rparr>,
      snd (RedisCache_get J rc key r))"
  using assms by (cases "RedisCache_get J rc key r") (simp add: getCache_def split_beta)

lemma getCache_total_miss:
  assumes "flag (cfg_enabled (objs h (config svc)))" "fst (MemoryCache_get (memoryCache svc) key now_get) = JNull"
    "secondary svc = None \<or> (\<exists>rc. secondary svc = Some rc \<and> fst (RedisCache_get J rc key r) = Inr JNull)"
  shows "fst (getCache h J svc key now_get now_fill r) = Inr JNull
    \<and> fst (snd (getCache h J svc key now_get now_fill r)) =
        svc \<lparr> memoryCache := snd (MemoryCache_get (memoryCache svc) key now_get) \<rparr>"
  using assms
  by (auto simp: getCache_def split_beta split: option.splits prod.splits sum.splits)


lemma literal_store_simps:
  "objs literal_store 0 = empty_config \<lparr> cfg_ttl := Some 60, cfg_maxSize := Some 2 \<rparr>"
  "next_ref literal_store = Suc 0"
  by (simp_all add: literal_store_def new_object_def empty_store_def)

lemma demo_service_simps:
  "memoryCache (demo_service cl) = \<lparr> cache = [], maxSize = 2 \<rparr>"
  "redisCache (demo_service cl) = Some \<lparr> redis = Some cl \<rparr>"
  "config (demo_service cl) = Suc 0"
  "secondary (demo_service cl) = Some \<lparr> redis = Some cl \<rparr>"
  "objs demo_store (Suc 0) =
     empty_config \<lparr> cfg_ttl := Some 60, cfg_maxSize := Some 2, cfg_enabled := Some True \<rparr>"
  by (simp_all add: demo_service_def demo_store_def BaseCacheService_new_def spread_defaults_def
      literal_store_simps new_object_def empty_config_def Let_def
      MemoryCache_new_def RedisCache_new_def secondary_def RedisCache_isAvailable_def)

text \<open>
  C4. \<^verbatim>\<open>getCache\<close> returns \<^verbatim>\<open>null\<close> and does nothing when caching is disabled.
  When enabled it returns the memory cache's value on a hit there; on a miss there, with
  a secondary tier that is available and answers with a value other than \<^verbatim>\<open>null\<close>,
  it returns that value and stores it in the memory cache under the configured TTL; and
  when both tiers miss (or there is no secondary tier) it returns \<^verbatim>\<open>null\<close>.
\<close>

theorem getCache_spec:
  "(\<not> flag (cfg_enabled (objs h (config svc))) \<longrightarrow> getCache h J svc key now_get now_fill r = (Inr JNull, svc, r))
   \<and> (flag (cfg_enabled (objs h (config svc))) \<and> fst (MemoryCache_get (memoryCache svc) key now_get) \<noteq> JNull \<longrightarrow>
        fst (getCache h J svc key now_get now_fill r) =
          Inr (fst (MemoryCache_get (memoryCache svc) key now_get)))
   \<and> (flag (cfg_enabled (objs h (config svc))) \<and> fst (MemoryCache_get (memoryCache svc) key now_get) = JNull
        \<and> secondary svc = Some rc \<and> fst (RedisCache_get J rc key r) = Inr v \<and> v \<noteq> JNull \<longrightarrow>
        fst (getCache h J svc key now_get now_fill r) = Inr v
        \<and> memoryCache (fst (snd (getCache h J svc key now_get now_fill r))) =
            MemoryCache_set (snd (MemoryCache_get (memoryCache svc) key now_get)) key v
              (cfg_ttl (objs h (config svc))) None now_fill
        \<and> map_of (cache (memoryCache (fst (snd (getCache h J svc key now_get now_fill r))))) key =
            Some \<lparr> data = v, expires = now_fill + (case cfg_ttl (objs h (config svc)) of None \<Rightarrow> 3600 | Some t \<Rightarrow> t) * 1000,
                   lastModified = None \<rparr>)
   \<and> (flag (cfg_enabled (objs h (config svc))) \<and> fst (MemoryCache_get (memoryCache svc) key now_get) = JNull
        \<and> (secondary svc = None
            \<or> (secondary svc = Some rc \<and> fst (RedisCache_get J rc key r) = Inr JNull)) \<longrightarrow>
        fst (getCache h J svc key now_get now_fill r) = Inr JNull)"
proof (intro conjI impI)
  assume "\<not> flag (cfg_enabled (objs h (config svc)))"
  then show "getCache h J svc key now_get now_fill r = (Inr JNull, svc, r)"
    by (rule getCache_disabled)
next
  assume "flag (cfg_enabled (objs h (config svc))) \<and> fst (MemoryCache_get (memoryCache svc) key now_get) \<noteq> JNull"
  then show "fst (getCache h J svc key now_get now_fill r) =
      Inr (fst (MemoryCache_get (memoryCache svc) key now_get))"
    by (simp add: getCache_memory_hit)
next
  assume a: "flag (cfg_enabled (objs h (config svc))) \<and> fst (MemoryCache_get (memoryCache svc) key now_get) = JNull
        \<and> secondary svc = Some rc \<and> fst (RedisCache_get J rc key r) = Inr v \<and> v \<noteq> JNull"
  then have g: "getCache h J svc key now_get now_fill r =
     (Inr v,
      svc \<lparr> memoryCache :=
        MemoryCache_set (snd (MemoryCache_get (memoryCache svc) key now_get)) key v
          (cfg_ttl (objs h (config svc))) None now_fill \<rparr>,
      snd (RedisCache_get J rc key r))"
    by (intro getCache_backfill) simp_all
  show "fst (getCache h J svc key now_get now_fill r) = Inr v" by (simp add: g)
  show "memoryCache (fst (snd (getCache h J svc key now_get now_fill r))) =
            MemoryCache_set (snd (MemoryCache_get (memoryCache svc) key now_get)) key v
              (cfg_ttl (objs h (config svc))) None now_fill"
    by (simp add: g)
  show "map_of (cache (memoryCache (fst (snd (getCache h J svc key now_get now_fill r))))) key =
            Some \<lparr> data = v, expires = now_fill + (case cfg_ttl (objs h (config svc)) of None \<Rightarrow> 3600 | Some t \<Rightarrow> t) * 1000,
                   lastModified = None \<rparr>"
    by (simp add: g map_of_set_same)
next
  assume "flag (cfg_enabled (objs h (config svc))) \<and> fst (MemoryCache_get (memoryCache svc) key now_get) = JNull
        \<and> (secondary svc = None
            \<or> (secondary svc = Some rc \<and> fst (RedisCache_get J rc key r) = Inr JNull))"
  then show "fst (getCache h J svc key now_get now_fill r) = Inr JNull"
    using getCache_total_miss[of h svc key now_get J r now_fill] by auto
qed

lemma recording_get:
  "RedisCache_get stub_JSON \<lparr> redis = Some recording_driver \<rparr> key log =
     (Inr (JNum 7), log @ [Get key])"
  by (simp add: RedisCache_get_def recording_driver_def stub_JSON_def try_catch_def)

theorem getCache_spec_witness:
  "flag (cfg_enabled (objs demo_store (config (demo_service recording_driver))))
   \<and> fst (MemoryCache_get (memoryCache (demo_service recording_driver)) ''products:all'' 1000) = JNull
   \<and> fst (getCache demo_store stub_JSON (demo_service recording_driver) ''products:all'' 1000 1005 []) =
       Inr (JNum 7)
   \<and> map_of (cache (memoryCache (fst (snd
         (getCache demo_store stub_JSON (demo_service recording_driver) ''products:all'' 1000 1005 [])))))
       ''products:all'' = Some \<lparr> data = JNum 7, expires = 61005, lastModified = None \<rparr>"
  using getCache_spec[where h = demo_store and svc = "demo_service recording_driver"
      and J = stub_JSON and key = "''products:all''" and now_get = 1000 and now_fill = 1005
      and r = "[]" and rc = "\<lparr> redis = Some recording_driver \<rparr>" and v = "JNum 7"]
  by (simp add: demo_service_simps recording_get MemoryCache_get_def map_of_set_same flag_def)

text \<open>
  C8. When \<^verbatim>\<open>getCache\<close> back-fills the memory cache from a secondary hit, the new
  entry has no \<^verbatim>\<open>lastModified\<close>, so right after it \<^verbatim>\<open>isStale\<close> (and the
  service's \<^verbatim>\<open>isCacheStale\<close>) is true for that key at every probe timestamp,
  although the value was just returned.
\<close>

theorem backfill_is_stale:
  assumes "flag (cfg_enabled (objs h (config svc)))"
    and "fst (MemoryCache_get (memoryCache svc) key now_get) = JNull"
    and "secondary svc = Some rc"
    and "fst (RedisCache_get J rc key r) = Inr v"
    and "v \<noteq> JNull"
  shows "fst (getCache h J svc key now_get now_fill r) = Inr v
    \<and> (\<exists>e. map_of (cache (memoryCache (fst (snd (getCache h J svc key now_get now_fill r))))) key
             = Some e \<and> data e = v \<and> lastModified e = None)
    \<and> fst (MemoryCache_isStale
             (memoryCache (fst (snd (getCache h J svc key now_get now_fill r)))) key t) = True
    \<and> fst (isCacheStale (fst (snd (getCache h J svc key now_get now_fill r))) key t) = True"
proof -
  have g: "getCache h J svc key now_get now_fill r =
     (Inr v,
      svc \<lparr> memoryCache :=
        MemoryCache_set (snd (MemoryCache_get (memoryCache svc) key now_get)) key v
          (cfg_ttl (objs h (config svc))) None now_fill \<rparr>,
      snd (RedisCache_get J rc key r))"
    using assms by (rule getCache_backfill)
  show ?thesis
    by (simp add: g map_of_set_same MemoryCache_isStale_def isCacheStale_def)
qed

theorem backfill_is_stale_witness:
  "fst (getCache demo_store stub_JSON (demo_service recording_driver) ''products:all'' 1000 1005 []) =
       Inr (JNum 7)
   \<and> fst (isCacheStale (fst (snd
         (getCache demo_store stub_JSON (demo_service recording_driver) ''products:all'' 1000 1005 [])))
       ''products:all'' 0) = True"
  using backfill_is_stale[where h = demo_store and svc = "demo_service recording_driver"
      and J = stub_JSON and key = "''products:all''" and now_get = 1000 and now_fill = 1005
      and r = "[]" and rc = "\<lparr> redis = Some recording_driver \<rparr>" and v = "JNum 7" and t = 0]
  by (simp add: demo_service_simps recording_get MemoryCache_get_def flag_def)

lemma RedisCache_unavailable:
  "redis rc = None \<Longrightarrow>
     RedisCache_set J rc key d secs now r = (Inr (), r)
     \<and> RedisCache_get J rc key r = (Inr JNull, r)
     \<and> RedisCache_delete rc key r = (Inr (), r)
     \<and> RedisCache_clear rc pattern r = (Inr (), r)"
  by (simp add: RedisCache_set_def RedisCache_get_def RedisCache_delete_def RedisCache_clear_def)

lemma RedisCache_get_parse_error:
  "redis rc = Some cl \<Longrightarrow> fst (redis_get cl key r) = Inr result \<Longrightarrow>
   JSON_parse J result = Inl e \<Longrightarrow> fst (RedisCache_get J rc key r) = Inr JNull"
  by (cases "redis_get cl key r") (simp add: RedisCache_get_def try_catch_def)

lemma getCache_secondary_down:
  assumes "secondary svc = None
     \<or> (\<exists>rc' cl e. secondary svc = Some rc' \<and> redis rc' = Some cl \<and> fst (redis_get cl key r) = Inl e)"
  shows "fst (getCache h J svc key now_get now_fill r) =
           (if flag (cfg_enabled (objs h (config svc))) then Inr (fst (MemoryCache_get (memoryCache svc) key now_get))
            else Inr JNull)
       \<and> fst (snd (getCache h J svc key now_get now_fill r)) =
           (if flag (cfg_enabled (objs h (config svc)))
            then svc \<lparr> memoryCache := snd (MemoryCache_get (memoryCache svc) key now_get) \<rparr>
            else svc)"
proof (cases "flag (cfg_enabled (objs h (config svc)))")
  case False
  then show ?thesis by (simp add: getCache_disabled)
next
  case en: True
  show ?thesis
  proof (cases "fst (MemoryCache_get (memoryCache svc) key now_get) = JNull")
    case False
    with en show ?thesis by (simp add: getCache_memory_hit)
  next
    case miss: True
    have "secondary svc = None
       \<or> (\<exists>rc. secondary svc = Some rc \<and> fst (RedisCache_get J rc key r) = Inr JNull)"
      using assms by (auto simp: RedisCache_get_transport_error)
    from getCache_total_miss[OF en miss this] en miss show ?thesis by simp
  qed
qed

text \<open>
  C6. The four operations of the secondary tier never throw, whatever the client does:
  \<^verbatim>\<open>set\<close>, \<^verbatim>\<open>delete\<close> and \<^verbatim>\<open>clear\<close> return normally and \<^verbatim>\<open>get\<close> returns
  a value. Without a client they make no remote call and \<^verbatim>\<open>get\<close> returns
  \<^verbatim>\<open>null\<close>; when the client's \<^verbatim>\<open>get\<close> rejects, \<^verbatim>\<open>get\<close> returns
  \<^verbatim>\<open>null\<close>. The coordinator's getCache, setCache and invalidateCache therefore
  never throw either, their effect on the memory cache does not depend on the
  secondary tier, and with the secondary tier down getCache returns what the memory
  cache returns.
\<close>

theorem secondary_never_throws:
  "fst (RedisCache_set J rc key d secs now r) = Inr ()
   \<and> (\<exists>v. fst (RedisCache_get J rc key r) = Inr v)
   \<and> fst (RedisCache_delete rc key r) = Inr ()
   \<and> fst (RedisCache_clear rc pattern r) = Inr ()
   \<and> (redis rc = None \<longrightarrow>
         RedisCache_set J rc key d secs now r = (Inr (), r)
         \<and> RedisCache_get J rc key r = (Inr JNull, r)
         \<and> RedisCache_delete rc key r = (Inr (), r)
         \<and> RedisCache_clear rc pattern r = (Inr (), r))
   \<and> (\<forall>cl e. redis rc = Some cl \<and> fst (redis_get cl key r) = Inl e \<longrightarrow>
         fst (RedisCache_get J rc key r) = Inr JNull)
   \<and> (\<exists>v. fst (getCache h J svc key now_get now_fill r) = Inr v)
   \<and> fst (setCache h J svc key d lm now_mem now_redis r) = Inr ()
   \<and> fst (invalidateCache svc key r) = Inr ()
   \<and> fst (clearCache svc pattern r) = Inr ()
   \<and> fst (snd (setCache h J svc key d lm now_mem now_redis r)) =
       (if flag (cfg_enabled (objs h (config svc)))
        then svc \<lparr> memoryCache :=
               MemoryCache_set (memoryCache svc) key d (cfg_ttl (objs h (config svc))) lm now_mem \<rparr>
        else svc)
   \<and> fst (snd (invalidateCache svc key r)) =
       svc \<lparr> memoryCache := MemoryCache_delete (memoryCache svc) key \<rparr>
   \<and> (secondary svc = None
        \<or> (\<exists>rc' cl e. secondary svc = Some rc' \<and> redis rc' = Some cl
               \<and> fst (redis_get cl key r) = Inl e) \<longrightarrow>
        fst (getCache h J svc key now_get now_fill r) =
           (if flag (cfg_enabled (objs h (config svc))) then Inr (fst (MemoryCache_get (memoryCache svc) key now_get))
            else Inr JNull)
        \<and> fst (snd (getCache h J svc key now_get now_fill r)) =
           (if flag (cfg_enabled (objs h (config svc)))
            then svc \<lparr> memoryCache := snd (MemoryCache_get (memoryCache svc) key now_get) \<rparr>
            else svc))"
proof (intro conjI)
  show "fst (RedisCache_set J rc key d secs now r) = Inr ()" by (rule RedisCache_set_ok)
  show "\<exists>v. fst (RedisCache_get J rc key r) = Inr v" by (rule RedisCache_get_ok)
  show "fst (RedisCache_delete rc key r) = Inr ()" by (rule RedisCache_delete_ok)
  show "fst (RedisCache_clear rc pattern r) = Inr ()" by (rule RedisCache_clear_ok)
  show "redis rc = None \<longrightarrow>
         RedisCache_set J rc key d secs now r = (Inr (), r)
         \<and> RedisCache_get J rc key r = (Inr JNull, r)
         \<and> RedisCache_delete rc key r = (Inr (), r)
         \<and> RedisCache_clear rc pattern r = (Inr (), r)"
    using RedisCache_unavailable[of rc J key d secs now r pattern] by blast
  show "\<forall>cl e. redis rc = Some cl \<and> fst (redis_get cl key r) = Inl e \<longrightarrow>
         fst (RedisCache_get J rc key r) = Inr JNull"
    by (simp add: RedisCache_get_transport_error)
  show "\<exists>v. fst (getCache h J svc key now_get now_fill r) = Inr v" by (rule getCache_ok)
  show "fst (setCache h J svc key d lm now_mem now_redis r) = Inr ()" by (rule setCache_fst)
  show "fst (invalidateCache svc key r) = Inr ()" by (rule invalidateCache_fst)
  show "fst (clearCache svc pattern r) = Inr ()" by (rule clearCache_fst)
  show "fst (snd (setCache h J svc key d lm now_mem now_redis r)) =
       (if flag (cfg_enabled (objs h (config svc)))
        then svc \<lparr> memoryCache :=
               MemoryCache_set (memoryCache svc) key d (cfg_ttl (objs h (config svc))) lm now_mem \<rparr>
        else svc)" by (rule setCache_svc)
  show "fst (snd (invalidateCache svc key r)) =
       svc \<lparr> memoryCache := MemoryCache_delete (memoryCache svc) key \<rparr>"
    by (rule invalidateCache_svc)
  show "secondary svc = None
        \<or> (\<exists>rc' cl e. secondary svc = Some rc' \<and> redis rc' = Some cl
               \<and> fst (redis_get cl key r) = Inl e) \<longrightarrow>
        fst (getCache h J svc key now_get now_fill r) =
           (if flag (cfg_enabled (objs h (config svc))) then Inr (fst (MemoryCache_get (memoryCache svc) key now_get))
            else Inr JNull)
        \<and> fst (snd (getCache h J svc key now_get now_fill r)) =
           (if flag (cfg_enabled (objs h (config svc)))
            then svc \<lparr> memoryCache := snd (MemoryCache_get (memoryCache svc) key now_get) \<rparr>
            else svc)"
    using getCache_secondary_down[of svc key r h J now_get now_fill] by blast
qed

text \<open>
  With the client that rejects every call: a write then a read of the same key returns
  the written value, served by the memory cache, and both calls reached the client.
\<close>

theorem secondary_never_throws_witness:
  "redis \<lparr> redis = Some failing_driver \<rparr> = Some failing_driver
   \<and> fst (redis_get failing_driver ''k'' []) = Inl TransportError
   \<and> fst (RedisCache_get stub_JSON \<lparr> redis = Some failing_driver \<rparr> ''k'' []) = Inr JNull
   \<and> setCache demo_store stub_JSON (demo_service failing_driver) ''k'' (JStr ''v'') None 0 0 [] =
       (Inr (),
        (demo_service failing_driver) \<lparr> memoryCache :=
           \<lparr> cache = [(''k'', \<lparr> data = JStr ''v'', expires = 60000, lastModified = None \<rparr>)],
             maxSize = 2 \<rparr> \<rparr>,
        [Setex ''k'' 60 ''{}''])
   \<and> fst (getCache demo_store stub_JSON
            (fst (snd (setCache demo_store stub_JSON (demo_service failing_driver)
                         ''k'' (JStr ''v'') None 0 0 [])))
            ''k'' 1 1 [Setex ''k'' 60 ''{}'']) = Inr (JStr ''v'')"
  using secondary_never_throws[where J = stub_JSON and rc = "\<lparr> redis = Some failing_driver \<rparr>"
      and key = "''k''" and d = "JStr ''v''" and secs = None and now = 0 and r = "[]"
      and pattern = None and h = demo_store and svc = "demo_service failing_driver"
      and now_get = 0 and now_fill = 0 and lm = None and now_mem = 0 and now_redis = 0]
  by (simp add: demo_service_simps failing_driver_def stub_JSON_def setCache_def getCache_def
      RedisCache_set_def RedisCache_get_def try_catch_def MemoryCache_set_def MemoryCache_get_def
      Let_def flag_def)

subsection \<open>Clearing by pattern\<close>

lemma RedisCache_clear_pattern:
  "redis rc = Some cl \<Longrightarrow> pattern \<noteq> [] \<Longrightarrow>
   snd (RedisCache_clear rc (Some pattern) r) =
     (case redis_keys cl pattern r of
        (Inl e, r') \<Rightarrow> r'
      | (Inr ks, r') \<Rightarrow> if ks = [] then r' else snd (redis_del cl ks r'))"
  by (simp add: RedisCache_clear_def try_catch_snd split: prod.splits sum.splits)

text \<open>
  C7. With a non-empty pattern, \<^verbatim>\<open>clearCache\<close> leaves the memory cache empty,
  whatever its keys were, and does not throw. With no available secondary tier no remote
  call is made; with one, the client is asked for the keys that match the pattern and,
  when it answers with a non-empty list, for the deletion of exactly those keys (one
  \<^verbatim>\<open>del\<close> call with all of them); a rejection of either call is swallowed.
\<close>

theorem clearCache_pattern:
  assumes "pattern \<noteq> []"
  shows "cache (memoryCache (fst (snd (clearCache svc (Some pattern) r)))) = []
    \<and> (\<forall>key now. fst (MemoryCache_get
          (memoryCache (fst (snd (clearCache svc (Some pattern) r)))) key now) = JNull)
    \<and> fst (clearCache svc (Some pattern) r) = Inr ()
    \<and> (secondary svc = None \<longrightarrow> snd (snd (clearCache svc (Some pattern) r)) = r)
    \<and> (\<forall>rc cl. secondary svc = Some rc \<and> redis rc = Some cl \<longrightarrow>
          snd (snd (clearCache svc (Some pattern) r)) =
            (case redis_keys cl pattern r of
               (Inl e, r') \<Rightarrow> r'
             | (Inr ks, r') \<Rightarrow> if ks = [] then r' else snd (redis_del cl ks r')))"
proof (intro conjI allI impI)
  show c: "cache (memoryCache (fst (snd (clearCache svc (Some pattern) r)))) = []"
    by (simp add: clearCache_svc MemoryCache_clear_def)
  show "fst (MemoryCache_get
          (memoryCache (fst (snd (clearCache svc (Some pattern) r)))) key now) = JNull"
    for key now
    by (simp add: MemoryCache_get_def c)
  show "fst (clearCache svc (Some pattern) r) = Inr ()" by (rule clearCache_fst)
  show "snd (snd (clearCache svc (Some pattern) r)) = r" if "secondary svc = None"
    using that by (simp add: clearCache_def Let_def)
  show "snd (snd (clearCache svc (Some pattern) r)) =
            (case redis_keys cl pattern r of
               (Inl e, r') \<Rightarrow> r'
             | (Inr ks, r') \<Rightarrow> if ks = [] then r' else snd (redis_del cl ks r'))"
    if "secondary svc = Some rc \<and> redis rc = Some cl" for rc cl
    using that assms RedisCache_clear_pattern[of rc cl pattern r]
    by (simp add: clearCache_def Let_def split_beta)
qed

theorem clearCache_pattern_witness:
  "fst (snd (setCache demo_store stub_JSON (demo_service recording_driver)
               ''catalog:data'' (JNum 1) None 0 0 [])) =
     (demo_service recording_driver) \<lparr> memoryCache :=
        \<lparr> cache = [(''catalog:data'', \<lparr> data = JNum 1, expires = 60000, lastModified = None \<rparr>)],
          maxSize = 2 \<rparr> \<rparr>
   \<and> fst (snd (clearCache
       (fst (snd (setCache demo_store stub_JSON (demo_service recording_driver)
                    ''catalog:data'' (JNum 1) None 0 0 [])))
       (Some ''products:query:*'') [])) =
     (demo_service recording_driver) \<lparr> memoryCache := \<lparr> cache = [], maxSize = 2 \<rparr> \<rparr>
   \<and> snd (snd (clearCache
       (fst (snd (setCache demo_store stub_JSON (demo_service recording_driver)
                    ''catalog:data'' (JNum 1) None 0 0 [])))
       (Some ''products:query:*'') [])) =
     [Keys ''products:query:*'', Del [''products:query:a'', ''products:query:b'']]"
  using clearCache_pattern[where pattern = "''products:query:*''"
      and svc = "fst (snd (setCache demo_store stub_JSON (demo_service recording_driver)
                             ''catalog:data'' (JNum 1) None 0 0 []))"
      and r = "[]"]
  by (simp add: demo_service_simps recording_driver_def stub_JSON_def setCache_def clearCache_def
      RedisCache_set_def RedisCache_clear_def try_catch_def MemoryCache_set_def
      MemoryCache_getStats_def MemoryCache_clear_def pattern_given_def Let_def flag_def
      secondary_def RedisCache_isAvailable_def)

subsection \<open>The invalidation hooks\<close>

lemma ProductService_invalidateProductCache_fst:
  "fst (ProductService_invalidateProductCache svc r) = Inr ()"
  by (simp add: ProductService_invalidateProductCache_def split_beta
      invalidateCache_fst clearCache_fst)

lemma ProductService_invalidateProductCache_svc:
  "fst (snd (ProductService_invalidateProductCache svc r)) =
     svc \<lparr> memoryCache := MemoryCache_clear (memoryCache svc) \<rparr>"
  by (simp add: ProductService_invalidateProductCache_def split_beta
      invalidateCache_svc clearCache_svc MemoryCache_clear_def MemoryCache_delete_def)

lemma invalidateSpecificCache_fst:
  "fst (CatalogService_invalidateSpecificCache ty svc r) = Inr ()"
  by (cases ty) (simp_all add: split_beta invalidateCache_fst clearCache_fst)

lemma invalidateSpecificCache_categories_svc:
  "fst (snd (CatalogService_invalidateSpecificCache categories svc r)) =
     svc \<lparr> memoryCache :=
       MemoryCache_delete (MemoryCache_delete (MemoryCache_delete (memoryCache svc)
         ''catalog:categories'') ''catalog:full'') ''catalog:categories-with-products'' \<rparr>"
  by (simp add: split_beta invalidateCache_svc)

lemma invalidateSpecificCache_especificaciones_svc:
  "fst (snd (CatalogService_invalidateSpecificCache especificaciones svc r)) =
     svc \<lparr> memoryCache := MemoryCache_clear (memoryCache svc) \<rparr>"
  by (simp add: split_beta invalidateCache_svc clearCache_svc MemoryCache_clear_def
      MemoryCache_delete_def)

lemma post_hook_Category:
  "fst (post_hook Category op m r) = Inr ()"
  "fst (snd (post_hook Category op m r)) =
     m \<lparr> catalogService := fst (snd (CatalogService_invalidateSpecificCache categories (catalogService m) r)),
         productService := (productService m)
           \<lparr> memoryCache := MemoryCache_clear (memoryCache (productService m)) \<rparr> \<rparr>"
  by (simp_all add: on_catalog_def on_product_def split_beta invalidateSpecificCache_fst
      ProductService_invalidateProductCache_fst ProductService_invalidateProductCache_svc
      del: CatalogService_invalidateSpecificCache.simps)

lemma post_hook_Especificacion:
  "fst (post_hook Especificacion op m r) = Inr ()"
  "fst (snd (post_hook Especificacion op m r)) =
     m \<lparr> catalogService := (catalogService m)
           \<lparr> memoryCache := MemoryCache_clear (memoryCache (catalogService m)) \<rparr> \<rparr>"
  by (simp_all add: on_catalog_def split_beta invalidateSpecificCache_fst
      invalidateSpecificCache_especificaciones_svc
      del: CatalogService_invalidateSpecificCache.simps)

lemma map_of_delete3:
  "map_of (cache (MemoryCache_delete (MemoryCache_delete (MemoryCache_delete c k1) k2) k3)) k =
     (if k = k1 \<or> k = k2 \<or> k = k3 then None else map_of (cache c) k)"
  by (simp add: MemoryCache_delete_def delete_conv')

text \<open>
  C5 (amended). When the callback that the manager registers for a mutation of a
  category is run, it empties the memory cache of the product service (so
  \<^verbatim>\<open>products:all\<close> is absent) and removes \<^verbatim>\<open>catalog:categories\<close>,
  \<^verbatim>\<open>catalog:full\<close> and \<^verbatim>\<open>catalog:categories-with-products\<close> from the memory
  cache of the catalog service, whose other keys keep their entries. When the callback
  registered for a mutation of an Especificacion is run, it leaves the product service
  and the sales service as they were, and empties the whole memory cache of the catalog
  service, not only that entity's keys.
\<close>

theorem hook_invalidation:
  "fst (post_hook Category op m r) = Inr ()
    \<and> cache (memoryCache (productService (fst (snd (post_hook Category op m r))))) = []
    \<and> fst (MemoryCache_get (memoryCache (productService (fst (snd (post_hook Category op m r)))))
         ''products:all'' now) = JNull
    \<and> fst (MemoryCache_get (memoryCache (catalogService (fst (snd (post_hook Category op m r)))))
         ''catalog:categories'' now) = JNull
    \<and> map_of (cache (memoryCache (catalogService (fst (snd (post_hook Category op m r)))))) k =
        (if k = ''catalog:categories'' \<or> k = ''catalog:full''
            \<or> k = ''catalog:categories-with-products''
         then None else map_of (cache (memoryCache (catalogService m))) k)
    \<and> fst (post_hook Especificacion op m r) = Inr ()
    \<and> productService (fst (snd (post_hook Especificacion op m r))) = productService m
    \<and> salesService (fst (snd (post_hook Especificacion op m r))) = salesService m
    \<and> cache (memoryCache (catalogService (fst (snd (post_hook Especificacion op m r))))) = []"
proof -
  have p: "cache (memoryCache (productService (fst (snd (post_hook Category op m r))))) = []"
    by (simp only: post_hook_Category) (simp add: MemoryCache_clear_def)
  have k: "map_of (cache (memoryCache (catalogService (fst (snd (post_hook Category op m r)))))) k =
        (if k = ''catalog:categories'' \<or> k = ''catalog:full''
            \<or> k = ''catalog:categories-with-products''
         then None else map_of (cache (memoryCache (catalogService m))) k)"
    for k
    by (simp only: post_hook_Category invalidateSpecificCache_categories_svc)
       (simp add: map_of_delete3)
  have s: "fst (snd (post_hook Especificacion op m r)) =
     m \<lparr> catalogService := (catalogService m)
           \<lparr> memoryCache := MemoryCache_clear (memoryCache (catalogService m)) \<rparr> \<rparr>"
    by (rule post_hook_Especificacion)
  show ?thesis
  proof (intro conjI)
    show "fst (post_hook Category op m r) = Inr ()" by (rule post_hook_Category)
    show "cache (memoryCache (productService (fst (snd (post_hook Category op m r))))) = []"
      by (rule p)
    show "fst (MemoryCache_get (memoryCache (productService (fst (snd (post_hook Category op m r)))))
         ''products:all'' now) = JNull"
      by (simp only: MemoryCache_get_def p) simp
    show "fst (MemoryCache_get (memoryCache (catalogService (fst (snd (post_hook Category op m r)))))
         ''catalog:categories'' now) = JNull"
      by (simp only: MemoryCache_get_def k) simp
    show "map_of (cache (memoryCache (catalogService (fst (snd (post_hook Category op m r)))))) k =
        (if k = ''catalog:categories'' \<or> k = ''catalog:full''
            \<or> k = ''catalog:categories-with-products''
         then None else map_of (cache (memoryCache (catalogService m))) k)"
      by (rule k)
    show "fst (post_hook Especificacion op m r) = Inr ()" by (rule post_hook_Especificacion)
    show "productService (fst (snd (post_hook Especificacion op m r))) = productService m"
      by (simp only: s) simp
    show "salesService (fst (snd (post_hook Especificacion op m r))) = salesService m"
      by (simp only: s) simp
    show "cache (memoryCache (catalogService (fst (snd (post_hook Especificacion op m r))))) = []"
      by (simp only: s) (simp add: MemoryCache_clear_def)
  qed
qed

lemma manager_store_simps:
  "manager_config fresh_manager = 0"
  "config (productService fresh_manager) = Suc 0"
  "config (catalogService fresh_manager) = Suc (Suc 0)"
  "config (salesService fresh_manager) = Suc (Suc (Suc 0))"
  "objs manager_store 0 = manager_defaults empty_config"
  "objs manager_store (Suc 0) = manager_defaults empty_config"
  "objs manager_store (Suc (Suc 0)) = manager_defaults empty_config"
  "redisCache (productService fresh_manager) = None"
  "redisCache (catalogService fresh_manager) = None"
  "memoryCache (productService fresh_manager) = \<lparr> cache = [], maxSize = 1000 \<rparr>"
  "memoryCache (catalogService fresh_manager) = \<lparr> cache = [], maxSize = 1000 \<rparr>"
  by (simp_all add: fresh_manager_def manager_store_def CacheManager_new_def
      BaseCacheService_new_def new_object_def empty_store_def Let_def
      spread_defaults_def manager_defaults_def empty_config_def MemoryCache_new_def)

lemma demo_manager_simps:
  "manager_config demo_manager = 0"
  "config (productService demo_manager) = Suc 0"
  "flag (cfg_enabled (objs manager_store (Suc 0)))"
  "memoryCache (productService demo_manager) =
     \<lparr> cache = [(''products:all'', \<lparr> data = JNum 2, expires = 3600000, lastModified = Some 0 \<rparr>)],
       maxSize = 1000 \<rparr>"
  "memoryCache (catalogService demo_manager) =
     \<lparr> cache = [(''catalog:categories'', \<lparr> data = JNum 1, expires = 3600000, lastModified = Some 0 \<rparr>)],
       maxSize = 1000 \<rparr>"
  by (simp_all add: demo_manager_def manager_store_simps setCache_def secondary_def
      manager_defaults_def empty_config_def flag_def MemoryCache_set_def Let_def)

text \<open>
  On a manager whose product service holds \<^verbatim>\<open>products:all\<close> and whose catalog
  service holds \<^verbatim>\<open>catalog:categories\<close>: both are served before the callback for
  a saved category is run and absent after it; the callback for a saved Especificacion
  leaves the product service as it is.
\<close>

theorem hook_invalidation_witness:
  "fst (MemoryCache_get (memoryCache (productService demo_manager)) ''products:all'' 1) = JNum 2
   \<and> fst (MemoryCache_get (memoryCache (catalogService demo_manager)) ''catalog:categories'' 1) = JNum 1
   \<and> fst (MemoryCache_get
        (memoryCache (productService (fst (snd (post_hook Category Save demo_manager [])))))
        ''products:all'' 1) = JNull
   \<and> fst (MemoryCache_get
        (memoryCache (catalogService (fst (snd (post_hook Category Save demo_manager [])))))
        ''catalog:categories'' 1) = JNull
   \<and> productService (fst (snd (post_hook Especificacion Save demo_manager []))) =
       productService demo_manager"
proof -
  from hook_invalidation[where op = Save and m = demo_manager and r = "[]" and now = 1
      and k = "''catalog:categories''"]
  have "fst (MemoryCache_get
        (memoryCache (productService (fst (snd (post_hook Category Save demo_manager [])))))
        ''products:all'' 1) = JNull"
    and "fst (MemoryCache_get
        (memoryCache (catalogService (fst (snd (post_hook Category Save demo_manager [])))))
        ''catalog:categories'' 1) = JNull"
    and "productService (fst (snd (post_hook Especificacion Save demo_manager []))) =
       productService demo_manager"
    by blast+
  then show ?thesis
    by (simp add: demo_manager_simps MemoryCache_get_def del: post_hook.simps)
qed

text \<open>
  The claim as stated fails for the leaf entity: \<^verbatim>\<open>catalog:categories\<close> is not a key
  of Especificacion; it is served before the callback for a saved Especificacion is run
  and gone after it.
\<close>

theorem leaf_mutation_counterexample:
  "fst (MemoryCache_get (memoryCache (catalogService demo_manager)) ''catalog:categories'' 1) = JNum 1
   \<and> fst (MemoryCache_get
        (memoryCache (catalogService (fst (snd (post_hook Especificacion Save demo_manager [])))))
        ''catalog:categories'' 1) = JNull"
proof -
  have "cache (memoryCache (catalogService
      (fst (snd (post_hook Especificacion Save demo_manager []))))) = []"
    by (simp add: post_hook_Especificacion MemoryCache_clear_def del: post_hook.simps)
  then show ?thesis
    by (simp add: demo_manager_simps MemoryCache_get_def del: post_hook.simps)
qed

subsection \<open>setEnabled\<close>

lemma new_object_simps:
  "fst (new_object v h) = next_ref h"
  "objs (snd (new_object v h)) = (objs h)(next_ref h := v)"
  "next_ref (snd (new_object v h)) = Suc (next_ref h)"
  by (simp_all add: new_object_def)

lemma BaseCacheService_new_simps:
  "config (fst (BaseCacheService_new connect (Some a) redisConfig h)) = next_ref h"
  "objs (snd (BaseCacheService_new connect (Some a) redisConfig h)) =
     (objs h)(next_ref h := spread_defaults (objs h a))"
  "next_ref (snd (BaseCacheService_new connect (Some a) redisConfig h)) = Suc (next_ref h)"
  by (simp_all add: BaseCacheService_new_def Let_def split_beta new_object_simps)

lemma CacheManager_new_refs:
  assumes "CacheManager_new connect config_arg h0 = (m, h1)"
  shows "manager_config m = next_ref h0"
    and "config (productService m) = Suc (next_ref h0)"
    and "config (catalogService m) = Suc (Suc (next_ref h0))"
    and "config (salesService m) = Suc (Suc (Suc (next_ref h0)))"
    and "objs h1 (Suc (next_ref h0)) =
           spread_defaults (manager_defaults
             (case config_arg of None \<Rightarrow> empty_config | Some a \<Rightarrow> objs h0 a))"
    and "objs h1 (Suc (Suc (next_ref h0))) =
           spread_defaults (manager_defaults
             (case config_arg of None \<Rightarrow> empty_config | Some a \<Rightarrow> objs h0 a))"
    and "objs h1 (Suc (Suc (Suc (next_ref h0)))) =
           spread_defaults (manager_defaults
             (case config_arg of None \<Rightarrow> empty_config | Some a \<Rightarrow> objs h0 a))"
  using assms
  by (auto simp: CacheManager_new_def Let_def split_beta new_object_simps
      BaseCacheService_new_simps)

lemma setEnabled_other_object:
  "a \<noteq> manager_config m \<Longrightarrow> objs (setEnabled m b h) a = objs h a"
  by (simp add: setEnabled_def)

lemma getCache_reads_own_config:
  "objs h' (config svc) = objs h (config svc) \<Longrightarrow>
   getCache h' J svc key now_get now_fill r = getCache h J svc key now_get now_fill r"
  unfolding getCache_def by (auto split: prod.splits option.splits sum.splits)

lemma setCache_reads_own_config:
  "objs h' (config svc) = objs h (config svc) \<Longrightarrow>
   setCache h' J svc key d lm now_mem now_redis r = setCache h J svc key d lm now_mem now_redis r"
  unfolding setCache_def Let_def by (auto split: prod.splits option.splits)

text \<open>
  C10. On a manager built by the constructor, the configuration object of each service
  is another object than the manager's (each service made its own copy). So
  \<^verbatim>\<open>setEnabled\<close>, which writes the manager's object, leaves the configuration of
  every service as it was, with the \<^verbatim>\<open>enabled\<close> flag it got at construction, and
  \<^verbatim>\<open>getCache\<close> and \<^verbatim>\<open>setCache\<close> of the services behave in the store after
  \<^verbatim>\<open>setEnabled\<close> as in the store before it, whatever the state of their caches;
  \<^verbatim>\<open>isEnabled\<close> reports the new value.
\<close>

theorem setEnabled_frame:
  assumes "CacheManager_new connect config_arg h0 = (m, h1)"
  shows "config (productService m) \<noteq> manager_config m
    \<and> config (catalogService m) \<noteq> manager_config m
    \<and> config (salesService m) \<noteq> manager_config m
    \<and> cfg_enabled (objs h1 (config (productService m))) =
        Some (case cfg_enabled (case config_arg of None \<Rightarrow> empty_config | Some a \<Rightarrow> objs h0 a)
              of None \<Rightarrow> True | Some en \<Rightarrow> en)
    \<and> (config svc = config (productService m) \<or> config svc = config (catalogService m)
          \<or> config svc = config (salesService m) \<longrightarrow>
        objs (setEnabled m b h) (config svc) = objs h (config svc)
        \<and> getCache (setEnabled m b h) J svc key now_get now_fill r =
            getCache h J svc key now_get now_fill r
        \<and> setCache (setEnabled m b h) J svc key d lm now_mem now_redis r =
            setCache h J svc key d lm now_mem now_redis r)
    \<and> isEnabled m (setEnabled m b h) = b"
proof -
  note refs = CacheManager_new_refs[OF assms]
  have distinct: "config (productService m) \<noteq> manager_config m"
    "config (catalogService m) \<noteq> manager_config m"
    "config (salesService m) \<noteq> manager_config m"
    by (simp_all add: refs)
  have en: "cfg_enabled (objs h1 (config (productService m))) =
        Some (case cfg_enabled (case config_arg of None \<Rightarrow> empty_config | Some a \<Rightarrow> objs h0 a)
              of None \<Rightarrow> True | Some en \<Rightarrow> en)"
    by (simp add: refs spread_defaults_def manager_defaults_def split: option.splits)
  have frame: "objs (setEnabled m b h) (config svc) = objs h (config svc)"
    if "config svc = config (productService m) \<or> config svc = config (catalogService m)
          \<or> config svc = config (salesService m)"
    using that distinct by (auto simp: setEnabled_other_object)
  have "isEnabled m (setEnabled m b h) = b"
    by (simp add: isEnabled_def setEnabled_def flag_def)
  with distinct en frame show ?thesis
    by (auto intro: getCache_reads_own_config setCache_reads_own_config)
qed

lemma manager_store_eq:
  "CacheManager_new (\<lambda>cfg. Inr recording_driver) None empty_store = (fresh_manager, manager_store)"
  by (simp add: fresh_manager_def manager_store_def)

text \<open>
  After \<^verbatim>\<open>setEnabled(false)\<close> the manager reports that caching is off, and the
  product service still serves its cached entry.
\<close>

theorem setEnabled_frame_witness:
  "isEnabled fresh_manager (setEnabled fresh_manager False manager_store) = False
   \<and> cfg_enabled (objs (setEnabled fresh_manager False manager_store)
         (config (productService demo_manager))) = Some True
   \<and> fst (getCache (setEnabled fresh_manager False manager_store) stub_JSON
            (productService demo_manager) ''products:all'' 1 1 []) = Inr (JNum 2)"
proof -
  have c: "config (productService demo_manager) = config (productService fresh_manager)"
    by (simp add: demo_manager_simps manager_store_simps)
  have g: "fst (getCache manager_store stub_JSON (productService demo_manager)
      ''products:all'' 1 1 []) = Inr (JNum 2)"
    by (simp add: getCache_def demo_manager_simps MemoryCache_get_def)
  have e: "cfg_enabled (objs manager_store (config (productService demo_manager))) = Some True"
    by (simp add: demo_manager_simps manager_store_simps manager_defaults_def empty_config_def)
  from setEnabled_frame[OF manager_store_eq, where svc = "productService demo_manager"
      and b = False and h = manager_store and J = stub_JSON and key = "''products:all''"
      and now_get = 1 and now_fill = 1 and r = "[]"] c g e
  show ?thesis by simp
qed

end
